theory Spec2Isabelle
  imports Complex_Main "HOL-Library.Word" "HOL-Library.Signed_Division"
begin

text \<open>
  The Dynu adapter for libdns: the two record translations of \<^verbatim>\<open>provider.go\<close>, the four
  calls of \<^verbatim>\<open>client.go\<close> and the four operations of the facade, in the version of the
  sources that has the \<^verbatim>\<open>OwnDomain\<close> field (the one the tests call). Functions of Go's
  standard library and of the module \<^verbatim>\<open>libdns\<close> are written out where the adapter calls
  them.
\<close>

section \<open>Go strings\<close>

text \<open>
  A Go \<^verbatim>\<open>string\<close> is a sequence of bytes; it is modelled as a \<^typ>\<open>string\<close>, one
  \<^typ>\<open>char\<close> per byte. The functions of package \<^verbatim>\<open>strings\<close> that the adapter and
  \<^verbatim>\<open>libdns\<close> call are written out as the standard library defines them.
\<close>

definition HasSuffix :: "string \<Rightarrow> string \<Rightarrow> bool" where
  \<comment> \<open>\<^verbatim>\<open>len(s) >= len(suffix) && s[len(s)-len(suffix):] == suffix\<close>\<close>
  "HasSuffix s suff = (length suff \<le> length s \<and> drop (length s - length suff) s = suff)"

definition TrimSuffix :: "string \<Rightarrow> string \<Rightarrow> string" where
  \<comment> \<open>\<^verbatim>\<open>if HasSuffix(s, suffix) { return s[:len(s)-len(suffix)] }; return s\<close>\<close>
  "TrimSuffix s suff = (if HasSuffix s suff then take (length s - length suff) s else s)"

function trimRightByte :: "string \<Rightarrow> char \<Rightarrow> string" where
  \<comment> \<open>\<^verbatim>\<open>for len(s) > 0 && s[len(s)-1] == c { s = s[:len(s)-1] }; return s\<close>\<close>
  "trimRightByte s c = (if s \<noteq> [] \<and> last s = c then trimRightByte (butlast s) c else s)"
  by pat_completeness auto
termination
  by (relation "measure (\<lambda>(s, c). length s)") (auto simp: less_Suc_eq_le)

function trimLeftByte :: "string \<Rightarrow> char \<Rightarrow> string" where
  \<comment> \<open>\<^verbatim>\<open>for len(s) > 0 && s[0] == c { s = s[1:] }; return s\<close>\<close>
  "trimLeftByte s c = (if s \<noteq> [] \<and> hd s = c then trimLeftByte (tl s) c else s)"
  by pat_completeness auto
termination
  by (relation "measure (\<lambda>(s, c). length s)") (auto simp: less_Suc_eq_le)

declare trimRightByte.simps [simp del] trimLeftByte.simps [simp del]

text \<open>
  \<^verbatim>\<open>strings.TrimRight(s, cutset)\<close> and \<^verbatim>\<open>strings.Trim(s, cutset)\<close> for a cutset of one
  ASCII byte, the only way they are called here (the cutset is \<^verbatim>\<open>"."\<close>): the standard
  library then runs the byte loops above.
\<close>

definition TrimRight :: "string \<Rightarrow> char \<Rightarrow> string" where
  "TrimRight s c = trimRightByte s c"

definition Trim :: "string \<Rightarrow> char \<Rightarrow> string" where
  "Trim s c = trimLeftByte (trimRightByte s c) c"

section \<open>Package fmt: printing and scanning an int64\<close>

text \<open>
  \<^verbatim>\<open>fmt.Sprint\<close> of an \<^verbatim>\<open>int64\<close> is its decimal numeral, with a minus sign when
  negative. An \<^verbatim>\<open>int64\<close> is a \<^typ>\<open>64 word\<close>, read with \<^const>\<open>sint\<close>.
\<close>

function natDigits :: "int \<Rightarrow> string" where
  "natDigits n =
     (if n < 10 then [''0123456789'' ! nat n]
      else natDigits (n div 10) @ [''0123456789'' ! nat (n mod 10)])"
  by pat_completeness auto
termination
  by (relation "measure nat") auto

declare natDigits.simps [simp del]

definition Sprint :: "64 word \<Rightarrow> string" where
  "Sprint i = (let n = sint i in if n < 0 then CHR ''-'' # natDigits (- n) else natDigits n)"

text \<open>
  \<^verbatim>\<open>fmt.Sscan\<close> and \<^verbatim>\<open>strconv.ParseInt\<close> belong to Go's standard library; the
  definitions follow the library's code (Go 1.20 or later, which \<^verbatim>\<open>errors.Join\<close> needs).
  \<^verbatim>\<open>fmt.Sscan(str, &id)\<close> with \<^verbatim>\<open>id\<close> an \<^verbatim>\<open>int64\<close> runs \<^verbatim>\<open>scanInt\<close> with the verb
  \<^verbatim>\<open>'v'\<close>: it skips leading white space, takes an optional sign, a base prefix
  (\<^verbatim>\<open>0b\<close>, \<^verbatim>\<open>0o\<close>, \<^verbatim>\<open>0x\<close> or a bare \<^verbatim>\<open>0\<close> for octal), then the longest run of digits
  of that base and underscores, and hands this token to \<^verbatim>\<open>strconv.ParseInt(tok, 0, 64)\<close>.
  Input after the token is left unread. Any failure leaves \<^verbatim>\<open>id\<close> untouched.
\<close>

definition spaceRuneLen :: "string \<Rightarrow> nat" where
  \<comment> \<open>the length of the UTF-8 encoding of a white-space rune (\<^verbatim>\<open>isSpace\<close>) at the head of
      the input, 0 when the next rune is not white space: U+0009..U+000D, U+0020, U+0085,
      U+00A0, U+1680, U+2000..U+200A, U+2028, U+2029, U+202F, U+205F, U+3000\<close>
  "spaceRuneLen s =
     (let b = map of_char s :: nat list
      in if b = [] then 0
         else if (9 \<le> hd b \<and> hd b \<le> 13) \<or> hd b = 32 then 1
         else if take 2 b = [194, 133] \<or> take 2 b = [194, 160] then 2
         else if take 3 b = [225, 154, 128] then 3
         else if take 2 b = [226, 128] \<and> 3 \<le> length b \<and>
                 ((128 \<le> b ! 2 \<and> b ! 2 \<le> 138) \<or> b ! 2 = 168 \<or> b ! 2 = 169 \<or> b ! 2 = 175)
              then 3
         else if take 3 b = [226, 129, 159] then 3
         else if take 3 b = [227, 128, 128] then 3
         else 0)"

function SkipSpace :: "string \<Rightarrow> string" where
  "SkipSpace s = (if spaceRuneLen s = 0 then s else SkipSpace (drop (spaceRuneLen s) s))"
  by pat_completeness auto
termination
  by (relation "measure length") (auto simp: spaceRuneLen_def Let_def split: if_splits)

declare SkipSpace.simps [simp del]

definition decimalDigits :: string where "decimalDigits = ''0123456789''"
definition octalDigits :: string where "octalDigits = ''01234567''"
definition binaryDigits :: string where "binaryDigits = ''01''"
definition hexadecimalDigits :: string where "hexadecimalDigits = ''0123456789aAbBcCdDeEfF''"

text \<open>The scanner state: the token buffer and the unread input.\<close>

type_synonym ss = "string \<times> string"

definition peek :: "string \<Rightarrow> ss \<Rightarrow> bool" where
  "peek ok st = (snd st \<noteq> [] \<and> hd (snd st) \<in> set ok)"

definition accept :: "string \<Rightarrow> ss \<Rightarrow> ss" where
  \<comment> \<open>\<^verbatim>\<open>s.accept(ok)\<close>: one byte of \<^verbatim>\<open>ok\<close> moves from the input to the buffer\<close>
  "accept ok st = (if peek ok st then (fst st @ [hd (snd st)], tl (snd st)) else st)"

fun acceptAll :: "string \<Rightarrow> string \<Rightarrow> string \<Rightarrow> ss" where
  \<comment> \<open>\<^verbatim>\<open>for s.accept(digits) { }\<close>\<close>
  "acceptAll ok buf [] = (buf, [])"
| "acceptAll ok buf (c # inp) = (if c \<in> set ok then acceptAll ok (buf @ [c]) inp else (buf, c # inp))"

definition scanBasePrefix :: "ss \<Rightarrow> (string \<times> bool) \<times> ss" where
  \<comment> \<open>the digits to accept, whether a digit (the zero) was found, and the new state; the
      base it returns is always 0\<close>
  "scanBasePrefix st =
     (if \<not> peek ''0'' st then ((decimalDigits @ ''_'', False), st)
      else let st1 = accept ''0'' st
           in if peek ''bB'' st1 then ((binaryDigits @ ''_'', True), accept ''bB'' st1)
              else if peek ''oO'' st1 then ((octalDigits @ ''_'', True), accept ''oO'' st1)
              else if peek ''xX'' st1 then ((hexadecimalDigits @ ''_'', True), accept ''xX'' st1)
              else ((octalDigits @ ''_'', True), st1))"

datatype NumError = ErrSyntax | ErrRange

datatype scan_error = ErrUnexpectedEOF | ExpectedInteger | NumErr NumError

definition scanNumber :: "string \<Rightarrow> bool \<Rightarrow> ss \<Rightarrow> scan_error + string" where
  "scanNumber digits haveDigits st =
     (if \<not> haveDigits \<and> snd st = [] then Inl ErrUnexpectedEOF
      else if \<not> haveDigits \<and> \<not> peek digits st then Inl ExpectedInteger
      else Inr (fst (acceptAll digits (fst st) (snd st))))"

subsection \<open>strconv.ParseInt with base 0 and 64 bits\<close>

definition maxUint64 :: int where "maxUint64 = 2 ^ 64 - 1"

definition digitVal :: "char \<Rightarrow> int option" where
  \<comment> \<open>\<^verbatim>\<open>'0'..'9'\<close> are 0..9, a letter of either case is 10..35 (\<^verbatim>\<open>lower(c) - 'a' + 10\<close>)\<close>
  "digitVal c =
     (let n = of_char c :: int
      in if 48 \<le> n \<and> n \<le> 57 then Some (n - 48)
         else if 97 \<le> n \<and> n \<le> 122 then Some (n - 87)
         else if 65 \<le> n \<and> n \<le> 90 then Some (n - 55)
         else None)"

fun parseUintLoop :: "int \<Rightarrow> int \<Rightarrow> bool \<Rightarrow> string \<Rightarrow> NumError + int \<times> bool" where
  \<comment> \<open>the digit loop of \<^verbatim>\<open>ParseUint\<close> (\<^verbatim>\<open>base0\<close> holds): the number so far and whether an
      underscore was seen\<close>
  "parseUintLoop base n underscores [] = Inr (n, underscores)"
| "parseUintLoop base n underscores (c # cs) =
     (if c = CHR ''_'' then parseUintLoop base n True cs
      else case digitVal c of
             None \<Rightarrow> Inl ErrSyntax
           | Some d \<Rightarrow>
               if base \<le> d then Inl ErrSyntax
               else if maxUint64 div base + 1 \<le> n then Inl ErrRange
               else if maxUint64 < n * base + d then Inl ErrRange
               else parseUintLoop base (n * base + d) underscores cs)"

datatype saw = SawStart | SawDigit | SawUnderscore | SawOther

fun underscoreLoop :: "bool \<Rightarrow> saw \<Rightarrow> string \<Rightarrow> bool" where
  "underscoreLoop hex sw [] = (sw \<noteq> SawUnderscore)"
| "underscoreLoop hex sw (c # cs) =
     (if c \<in> set decimalDigits \<or> (hex \<and> c \<in> set ''abcdefABCDEF'') then underscoreLoop hex SawDigit cs
      else if c = CHR ''_'' then (if sw \<noteq> SawDigit then False else underscoreLoop hex SawUnderscore cs)
      else if sw = SawUnderscore then False
      else underscoreLoop hex SawOther cs)"

definition hasBasePrefix :: "string \<Rightarrow> string \<Rightarrow> bool" where
  \<comment> \<open>\<^verbatim>\<open>s[0] == '0' && lower(s[1]) == c\<close>, the letter given in both cases\<close>
  "hasBasePrefix letters s = (2 \<le> length s \<and> hd s = CHR ''0'' \<and> s ! 1 \<in> set letters)"

definition underscoreOK :: "string \<Rightarrow> bool" where
  "underscoreOK s0 =
     (let s = (if s0 \<noteq> [] \<and> (hd s0 = CHR ''-'' \<or> hd s0 = CHR ''+'') then tl s0 else s0)
      in if hasBasePrefix ''bBoOxX'' s then underscoreLoop (hasBasePrefix ''xX'' s) SawDigit (drop 2 s)
         else underscoreLoop False SawStart s)"

definition ParseUint :: "string \<Rightarrow> NumError + int" where
  "ParseUint s =
     (if s = [] then Inl ErrSyntax
      else let (base, digits) =
                 (if hd s = CHR ''0'' then
                    (if 3 \<le> length s \<and> hasBasePrefix ''bB'' s then (2, drop 2 s)
                     else if 3 \<le> length s \<and> hasBasePrefix ''oO'' s then (8, drop 2 s)
                     else if 3 \<le> length s \<and> hasBasePrefix ''xX'' s then (16, drop 2 s)
                     else (8, tl s))
                  else (10, s))
           in case parseUintLoop base 0 False digits of
                Inl e \<Rightarrow> Inl e
              | Inr (n, underscores) \<Rightarrow>
                  if underscores \<and> \<not> underscoreOK s then Inl ErrSyntax else Inr n)"

definition ParseInt :: "string \<Rightarrow> NumError + int" where
  "ParseInt s0 =
     (if s0 = [] then Inl ErrSyntax
      else let neg = (hd s0 = CHR ''-'');
               s = (if hd s0 = CHR ''+'' \<or> hd s0 = CHR ''-'' then tl s0 else s0)
           in case ParseUint s of
                Inl ErrSyntax \<Rightarrow> Inl ErrSyntax
              | Inl ErrRange \<Rightarrow> Inl ErrRange
              | Inr un \<Rightarrow>
                  if \<not> neg \<and> 2 ^ 63 \<le> un then Inl ErrRange
                  else if neg \<and> 2 ^ 63 < un then Inl ErrRange
                  else Inr (if neg then - un else un))"

definition scanInt :: "string \<Rightarrow> scan_error + int" where
  "scanInt str =
     (let inp = SkipSpace str
      in if inp = [] then Inl ErrUnexpectedEOF
         else let st1 = accept ''+-'' ([], inp);
                  ((digits, haveDigits), st2) = scanBasePrefix st1
              in case scanNumber digits haveDigits st2 of
                   Inl e \<Rightarrow> Inl e
                 | Inr tok \<Rightarrow> (case ParseInt tok of Inl e \<Rightarrow> Inl (NumErr e) | Inr i \<Rightarrow> Inr i))"

definition Sscan :: "string \<Rightarrow> 64 word" where
  \<comment> \<open>\<^verbatim>\<open>var id int64; fmt.Sscan(str, &id)\<close>, the error dropped: the value of \<^verbatim>\<open>id\<close> after
      the call\<close>
  "Sscan str = (case scanInt str of Inl e \<Rightarrow> 0 | Inr i \<Rightarrow> word_of_int i)"

section \<open>Package time: a Duration in seconds\<close>

text \<open>
  A \<^verbatim>\<open>time.Duration\<close> is an \<^verbatim>\<open>int64\<close> count of nanoseconds. \<^verbatim>\<open>Duration.Seconds\<close>
  computes \<^verbatim>\<open>float64(sec) + float64(nsec)/1e9\<close> with \<^verbatim>\<open>sec := d / Second\<close> and
  \<^verbatim>\<open>nsec := d % Second\<close> (Go's division truncates, the remainder has the sign of \<^verbatim>\<open>d\<close>).
  A finite \<^verbatim>\<open>float64\<close> is a rational; each operation rounds the exact result to the
  nearest number with a 53-bit significand, ties to even. All values met here are below
  \<open>2 ^ 34\<close> in magnitude, far from overflow.
\<close>

function bitLen :: "int \<Rightarrow> int" where
  \<comment> \<open>the number of binary digits of a positive integer\<close>
  "bitLen n = (if n \<le> 0 then 0 else 1 + bitLen (n div 2))"
  by pat_completeness auto
termination
  by (relation "measure nat") auto

declare bitLen.simps [simp del]

definition ilog2 :: "rat \<Rightarrow> int" where
  \<comment> \<open>for \<open>0 < x\<close>, the exponent \<open>e\<close> with \<open>2 ^ e \<le> x < 2 ^ (e + 1)\<close>\<close>
  "ilog2 x = (if 1 \<le> x then bitLen \<lfloor>x\<rfloor> - 1 else - bitLen (\<lceil>1 / x\<rceil> - 1))"

definition roundHalfEven :: "rat \<Rightarrow> int" where
  "roundHalfEven x =
     (let f = \<lfloor>x\<rfloor>; r = x - of_int f
      in if r < 1 / 2 then f else if 1 / 2 < r then f + 1 else if even f then f else f + 1)"

definition float64 :: "rat \<Rightarrow> rat" where
  \<comment> \<open>rounding to \<^verbatim>\<open>float64\<close>: the spacing of the representable numbers around \<open>x\<close> is
      \<open>2 ^ (e - 52)\<close>, with \<open>e\<close> the exponent of \<open>x\<close>, at least that of the subnormals\<close>
  "float64 x =
     (if x = 0 then 0
      else let e = max (ilog2 \<bar>x\<bar>) (- 1022); u = 2 powi (e - 52)
           in of_int (roundHalfEven (x / u)) * u)"

definition Second :: int where "Second = 1000000000"

definition Seconds :: "64 word \<Rightarrow> rat" where
  "Seconds d =
     (let sec = sint d sdiv Second; nsec = sint d smod Second
      in float64 (float64 (of_int sec) + float64 (float64 (of_int nsec) / 1000000000)))"

definition truncToInt :: "rat \<Rightarrow> 64 word" where
  \<comment> \<open>the conversion \<^verbatim>\<open>int(f)\<close> of a \<^verbatim>\<open>float64\<close>: the fraction is discarded; \<^verbatim>\<open>int\<close> has
      64 bits\<close>
  "truncToInt x = word_of_int (if 0 \<le> x then \<lfloor>x\<rfloor> else \<lceil>x\<rceil>)"

section \<open>Package libdns\<close>

text \<open>
  Modelled from the spec: \<^verbatim>\<open>libdns.RelativeName\<close>, \<^verbatim>\<open>libdns.AbsoluteName\<close> and the type
  \<^verbatim>\<open>libdns.Record\<close> belong to the imported module \<^verbatim>\<open>github.com/libdns/libdns\<close>, which is
  not part of the sources. The spec's name-rebasing primitive (section 4.1) is "given a
  short name and a domain, produce the absolute name by suffixing; given an absolute name
  and a domain, produce the short name by stripping the suffix and trailing separator,
  yielding empty string if the absolute name equals the domain exactly". The definitions
  follow the module's two functions: \<^verbatim>\<open>RelativeName\<close> drops one trailing dot of each
  argument before it strips the zone and then one dot, which is the spec's stripping on
  names without a trailing dot; \<^verbatim>\<open>AbsoluteName\<close> returns the zone for the names
  \<^verbatim>\<open>""\<close> and \<^verbatim>\<open>"@"\<close>, and joins name and zone with one dot otherwise.
\<close>

definition RelativeName :: "string \<Rightarrow> string \<Rightarrow> string" where
  "RelativeName fqdn zone =
     TrimSuffix (TrimSuffix (TrimSuffix fqdn ''.'') (TrimSuffix zone ''.'')) ''.''"

definition AbsoluteName :: "string \<Rightarrow> string \<Rightarrow> string" where
  "AbsoluteName name zone =
     (if zone = [] then Trim name (CHR ''.'')
      else if name = [] \<or> name = ''@'' then zone
      else (if HasSuffix name ''.'' then name else name @ ''.'') @ zone)"

record libdns_Record =
  ID :: string
  Type :: string
  Name :: string
  Value :: string
  TTL :: "64 word"  \<comment> \<open>\<^verbatim>\<open>time.Duration\<close>: nanoseconds\<close>
  Priority :: "64 word"  \<comment> \<open>\<^verbatim>\<open>uint\<close>\<close>

section \<open>The provider's records (models.go)\<close>

record APIException =
  exc_StatusCode :: "32 word"
  exc_Type :: string
  exc_Message :: string

record DNSRecord =
  dns_ID :: "64 word"
  dns_Type :: string
  DomainID :: "64 word"
  DomainName :: string
  NodeName :: string
  Hostname :: string
  State :: bool
  Content :: string
  Ipv4Address :: string
  Ipv6Address :: string
  Host :: string
  TextData :: string
  dns_TTL :: "64 word"  \<comment> \<open>\<^verbatim>\<open>int\<close>, 64 bits\<close>
  dns_Priority :: "64 word"
  dns_StatusCode :: "32 word"

record DNSHostname =
  hn_StatusCode :: "32 word"
  hn_ID :: "64 word"
  hn_DomainName :: string
  hn_Hostname :: string
  hn_Node :: string

record RecordsResponse =
  rr_StatusCode :: "32 word"
  DNSRecords :: "DNSRecord list"

record DeleteResponse =
  del_StatusCode :: "32 word"

definition zeroDNSRecord :: DNSRecord where
  \<comment> \<open>Go's zero value \<^verbatim>\<open>DNSRecord{}\<close>\<close>
  "zeroDNSRecord =
     \<lparr>dns_ID = 0, dns_Type = [], DomainID = 0, DomainName = [], NodeName = [], Hostname = [],
      State = False, Content = [], Ipv4Address = [], Ipv6Address = [], Host = [],
      TextData = [], dns_TTL = 0, dns_Priority = 0, dns_StatusCode = 0\<rparr>"

section \<open>The record translator (provider.go)\<close>

datatype error =
    TransportError string  \<comment> \<open>the request could not be made or its body read\<close>
  | DecodeError string  \<comment> \<open>\<^verbatim>\<open>json.Unmarshal\<close> of the response failed\<close>
  | APIError APIException  \<comment> \<open>\<^verbatim>\<open>fmt.Errorf("API error: %w", apiException)\<close>\<close>
  | NotImplemented libdns_Record  \<comment> \<open>\<^verbatim>\<open>"dnsRecord %+v: record type not implemented"\<close>\<close>
  | RecordError libdns_Record error  \<comment> \<open>\<^verbatim>\<open>fmt.Errorf("dnsRecord %+v: %w", rec, err)\<close>\<close>
  | RecordIdError string error  \<comment> \<open>\<^verbatim>\<open>fmt.Errorf("dnsRecordId %s: %w", rec.ID, err)\<close>\<close>
  | JoinError "error list"  \<comment> \<open>\<^verbatim>\<open>errors.Join\<close> of at least one error\<close>

definition errors_Join :: "error list \<Rightarrow> error option" where
  \<comment> \<open>\<^verbatim>\<open>errors.Join(errs...)\<close>: nil when there is no error to join\<close>
  "errors_Join errs = (if errs = [] then None else Some (JoinError errs))"

definition dnsRecordToLibdnsRecord :: "DNSRecord \<Rightarrow> string \<Rightarrow> libdns_Record" where
  "dnsRecordToLibdnsRecord dnsRecord domain =
     (let fqdn = Hostname dnsRecord;
          relativeName0 = RelativeName fqdn domain;
          relativeName = (if relativeName0 = [] then ''@'' else relativeName0);
          libRecord = \<lparr>ID = Sprint (dns_ID dnsRecord), Type = dns_Type dnsRecord,
                       Name = relativeName, Value = [], TTL = dns_TTL dnsRecord * word_of_int Second,
                       Priority = 0\<rparr>
      in if dns_Type dnsRecord = ''A'' then libRecord\<lparr>Value := Ipv4Address dnsRecord\<rparr>
         else if dns_Type dnsRecord = ''AAAA'' then libRecord\<lparr>Value := Ipv6Address dnsRecord\<rparr>
         else if dns_Type dnsRecord = ''CNAME'' then libRecord\<lparr>Value := Host dnsRecord\<rparr>
         else if dns_Type dnsRecord = ''MX''
           then libRecord\<lparr>Value := Host dnsRecord, Priority := dns_Priority dnsRecord\<rparr>
         else if dns_Type dnsRecord = ''NS'' then libRecord\<lparr>Value := Host dnsRecord\<rparr>
         else if dns_Type dnsRecord = ''PTR''
           then libRecord\<lparr>Name := Host dnsRecord, Value := Hostname dnsRecord\<rparr>
         else if dns_Type dnsRecord = ''SPF'' then libRecord\<lparr>Value := TextData dnsRecord\<rparr>
         else if dns_Type dnsRecord = ''TXT'' then libRecord\<lparr>Value := TextData dnsRecord\<rparr>
         else libRecord\<lparr>Value := Content dnsRecord\<rparr>)"

definition libdnsRecordToDnsRecord ::
  "libdns_Record \<Rightarrow> string \<Rightarrow> string \<Rightarrow> DNSRecord \<times> error option" where
  "libdnsRecordToDnsRecord record domain ownDomain =
     (let id = Sscan (ID record);
          nodeName = (if Name record = ''@'' then [] else Name record);
          fqdn = AbsoluteName nodeName domain;
          relativeName = RelativeName fqdn ownDomain;
          dnsRecord = zeroDNSRecord\<lparr>dns_ID := id, dns_Type := Type record,
                        NodeName := relativeName,
                        dns_TTL := truncToInt (Seconds (TTL record)), State := True\<rparr>
      in if Type record = ''A'' then (dnsRecord\<lparr>Ipv4Address := Value record\<rparr>, None)
         else if Type record = ''AAAA'' then (dnsRecord\<lparr>Ipv6Address := Value record\<rparr>, None)
         else if Type record = ''CNAME'' then (dnsRecord\<lparr>Host := Value record\<rparr>, None)
         else if Type record = ''MX''
           then (dnsRecord\<lparr>Host := Value record, dns_Priority := Priority record\<rparr>, None)
         else if Type record = ''NS'' then (dnsRecord\<lparr>Host := Value record\<rparr>, None)
         else if Type record = ''PTR''
           then (dnsRecord\<lparr>Host := Name record,
                            NodeName := RelativeName (Value record) ownDomain\<rparr>, None)
         else if Type record = ''SPF'' then (dnsRecord\<lparr>TextData := Value record\<rparr>, None)
         else if Type record = ''TXT'' then (dnsRecord\<lparr>TextData := Value record\<rparr>, None)
         else (dnsRecord, Some (NotImplemented record)))"

section \<open>The provider client (client.go)\<close>

text \<open>
  The HTTP exchange is the boundary of the adapter. A request is the method, the path
  elements handed to \<^verbatim>\<open>joinUrlPath\<close>, the body and the \<^verbatim>\<open>API-Key\<close> header. The remote
  side is a state \<open>'w\<close> that every exchange may change. \<^verbatim>\<open>doWithCustomError\<close> decodes
  the response body twice, into the result and into the \<^verbatim>\<open>APIException\<close>; it is one
  function for each result type the client decodes.
\<close>

datatype http_method = MethodGet | MethodPost | MethodDelete

record request =
  req_method :: http_method
  req_elems :: "string list"
  req_body :: "DNSRecord option"
  req_APIKey :: string

type_synonym ('w, 'r) exchange = "'w \<Rightarrow> request \<Rightarrow> (error + 'r \<times> APIException) \<times> 'w"

record 'w Transport =
  do_DNSHostname :: "('w, DNSHostname) exchange"
  do_RecordsResponse :: "('w, RecordsResponse) exchange"
  do_DNSRecord :: "('w, DNSRecord) exchange"
  do_DeleteResponse :: "('w, DeleteResponse) exchange"

record 'w Client =
  HTTPClient :: "'w Transport"
  APIToken :: string

definition GetRootDomain ::
  "'w Client \<Rightarrow> 'w \<Rightarrow> string \<Rightarrow> (error + DNSHostname) \<times> 'w" where
  "GetRootDomain c w hostname =
     (case do_DNSHostname (HTTPClient c) w
             \<lparr>req_method = MethodGet, req_elems = [''dns'', ''getroot'', hostname],
              req_body = None, req_APIKey = APIToken c\<rparr> of
        (Inl err, w') \<Rightarrow> (Inl err, w')
      | (Inr (apiResponse, apiException), w') \<Rightarrow>
          if hn_StatusCode apiResponse \<noteq> 200 then (Inl (APIError apiException), w')
          else (Inr apiResponse, w'))"

definition GetRecords ::
  "'w Client \<Rightarrow> 'w \<Rightarrow> 64 word \<Rightarrow> (error + DNSRecord list) \<times> 'w" where
  "GetRecords c w hostnameId =
     (case do_RecordsResponse (HTTPClient c) w
             \<lparr>req_method = MethodGet, req_elems = [''dns'', Sprint hostnameId, ''record''],
              req_body = None, req_APIKey = APIToken c\<rparr> of
        (Inl err, w') \<Rightarrow> (Inl err, w')
      | (Inr (apiResponse, apiException), w') \<Rightarrow>
          if rr_StatusCode apiResponse \<noteq> 200 then (Inl (APIError apiException), w')
          else (Inr (DNSRecords apiResponse), w'))"

definition AddOrUpdateRecord ::
  "'w Client \<Rightarrow> 'w \<Rightarrow> 64 word \<Rightarrow> DNSRecord \<Rightarrow> bool \<Rightarrow> (error + DNSRecord) \<times> 'w" where
  \<comment> \<open>the body is the record itself: \<^verbatim>\<open>json.Marshal\<close> of a struct of strings, integers and
      a boolean does not fail\<close>
  "AddOrUpdateRecord c w hostnameId record ignoreRecordId =
     (let urlPaths0 = [''dns'', Sprint hostnameId, ''record''];
          urlPaths = (if dns_ID record \<noteq> 0 \<and> \<not> ignoreRecordId
                      then urlPaths0 @ [Sprint (dns_ID record)] else urlPaths0)
      in case do_DNSRecord (HTTPClient c) w
                \<lparr>req_method = MethodPost, req_elems = urlPaths,
                 req_body = Some record, req_APIKey = APIToken c\<rparr> of
           (Inl err, w') \<Rightarrow> (Inl err, w')
         | (Inr (apiResponse, apiException), w') \<Rightarrow>
             if dns_StatusCode apiResponse \<noteq> 200 then (Inl (APIError apiException), w')
             else (Inr apiResponse, w'))"

definition DeleteRecord ::
  "'w Client \<Rightarrow> 'w \<Rightarrow> 64 word \<Rightarrow> string \<Rightarrow> error option \<times> 'w" where
  "DeleteRecord c w hostnameId dnsRecordId =
     (case do_DeleteResponse (HTTPClient c) w
             \<lparr>req_method = MethodDelete,
              req_elems = [''dns'', Sprint hostnameId, ''record'', dnsRecordId],
              req_body = None, req_APIKey = APIToken c\<rparr> of
        (Inl err, w') \<Rightarrow> (Some err, w')
      | (Inr (apiResponse, apiException), w') \<Rightarrow>
          if del_StatusCode apiResponse \<noteq> 200 then (Some (APIError apiException), w')
          else (None, w'))"

section \<open>The facade (provider.go)\<close>

text \<open>
  A \<^verbatim>\<open>Provider\<close> is its configuration and its client; \<^verbatim>\<open>Once\<close> and \<^verbatim>\<open>Init\<close> only build
  the client from the token. Each operation takes the state of the remote side and
  returns the new one beside Go's pair of results: the records and the error.
\<close>

record 'w Provider =
  OwnDomain :: string
  Client :: "'w Client"

definition zoneToFqdn :: "string \<Rightarrow> string" where
  \<comment> \<open>\<^verbatim>\<open>return strings.TrimRight(zone, ".")\<close>\<close>
  "zoneToFqdn zone = TrimRight zone (CHR ''.'')"

definition Provider_GetRecords ::
  "'w Provider \<Rightarrow> 'w \<Rightarrow> string \<Rightarrow> (libdns_Record list \<times> error option) \<times> 'w" where
  \<comment> \<open>the method \<^verbatim>\<open>GetRecords\<close> of \<^verbatim>\<open>Provider\<close>; the client has one of the same name\<close>
  "Provider_GetRecords p w zone =
     (let domain = zoneToFqdn zone
      in case GetRootDomain (Client p) w (OwnDomain p) of
           (Inl err, w1) \<Rightarrow> (([], Some err), w1)
         | (Inr dnsHostName, w1) \<Rightarrow>
             (case GetRecords (Client p) w1 (hn_ID dnsHostName) of
                (Inl err, w2) \<Rightarrow> (([], Some err), w2)
              | (Inr dnsRecords, w2) \<Rightarrow>
                  ((map (\<lambda>dnsRecord. dnsRecordToLibdnsRecord dnsRecord domain) dnsRecords,
                    None), w2)))"

fun appendOrSetLoop ::
  "'w Provider \<Rightarrow> string \<Rightarrow> 64 word \<Rightarrow> bool \<Rightarrow> libdns_Record list \<Rightarrow>
     libdns_Record list \<Rightarrow> error list \<Rightarrow> 'w \<Rightarrow> (libdns_Record list \<times> error list) \<times> 'w" where
  \<comment> \<open>the loop \<^verbatim>\<open>for _, rec := range records\<close> of \<^verbatim>\<open>appendOrSetRecords\<close>, with the two
      slices it appends to\<close>
  "appendOrSetLoop p domain hostnameId ignoreRecordId [] updatedRecords updateErrors w =
     ((updatedRecords, updateErrors), w)"
| "appendOrSetLoop p domain hostnameId ignoreRecordId (rec # records) updatedRecords updateErrors w =
     (case libdnsRecordToDnsRecord rec domain (OwnDomain p) of
        (dnsRecord, Some err) \<Rightarrow>
          appendOrSetLoop p domain hostnameId ignoreRecordId records
            updatedRecords (updateErrors @ [err]) w
      | (dnsRecord, None) \<Rightarrow>
          (case AddOrUpdateRecord (Client p) w hostnameId dnsRecord ignoreRecordId of
             (Inl err, w') \<Rightarrow>
               appendOrSetLoop p domain hostnameId ignoreRecordId records
                 updatedRecords (updateErrors @ [RecordError rec err]) w'
           | (Inr updateResponse, w') \<Rightarrow>
               appendOrSetLoop p domain hostnameId ignoreRecordId records
                 (updatedRecords @ [dnsRecordToLibdnsRecord updateResponse domain])
                 updateErrors w'))"

definition appendOrSetRecords ::
  "'w Provider \<Rightarrow> 'w \<Rightarrow> string \<Rightarrow> libdns_Record list \<Rightarrow> bool \<Rightarrow>
     (libdns_Record list \<times> error option) \<times> 'w" where
  "appendOrSetRecords p w zone records ignoreRecordId =
     (let domain = zoneToFqdn zone
      in case GetRootDomain (Client p) w (OwnDomain p) of
           (Inl err, w1) \<Rightarrow> (([], Some err), w1)
         | (Inr dnsHostName, w1) \<Rightarrow>
             (case appendOrSetLoop p domain (hn_ID dnsHostName) ignoreRecordId records [] [] w1 of
                ((updatedRecords, updateErrors), w2) \<Rightarrow>
                  ((updatedRecords, errors_Join updateErrors), w2)))"

definition AppendRecords ::
  "'w Provider \<Rightarrow> 'w \<Rightarrow> string \<Rightarrow> libdns_Record list \<Rightarrow>
     (libdns_Record list \<times> error option) \<times> 'w" where
  "AppendRecords p w zone records = appendOrSetRecords p w zone records True"

definition SetRecords ::
  "'w Provider \<Rightarrow> 'w \<Rightarrow> string \<Rightarrow> libdns_Record list \<Rightarrow>
     (libdns_Record list \<times> error option) \<times> 'w" where
  "SetRecords p w zone records = appendOrSetRecords p w zone records False"

fun deleteLoop ::
  "'w Provider \<Rightarrow> 64 word \<Rightarrow> libdns_Record list \<Rightarrow>
     libdns_Record list \<Rightarrow> error list \<Rightarrow> 'w \<Rightarrow> (libdns_Record list \<times> error list) \<times> 'w" where
  \<comment> \<open>the loop of \<^verbatim>\<open>DeleteRecords\<close>\<close>
  "deleteLoop p hostnameId [] deletedRecords deleteErrors w = ((deletedRecords, deleteErrors), w)"
| "deleteLoop p hostnameId (rec # records) deletedRecords deleteErrors w =
     (case DeleteRecord (Client p) w hostnameId (ID rec) of
        (Some err, w') \<Rightarrow>
          deleteLoop p hostnameId records
            deletedRecords (deleteErrors @ [RecordIdError (ID rec) err]) w'
      | (None, w') \<Rightarrow>
          deleteLoop p hostnameId records (deletedRecords @ [rec]) deleteErrors w')"

definition DeleteRecords ::
  "'w Provider \<Rightarrow> 'w \<Rightarrow> string \<Rightarrow> libdns_Record list \<Rightarrow>
     (libdns_Record list \<times> error option) \<times> 'w" where
  "DeleteRecords p w zone records =
     (case GetRootDomain (Client p) w (OwnDomain p) of
        (Inl err, w1) \<Rightarrow> (([], Some err), w1)
      | (Inr dnsHostName, w1) \<Rightarrow>
          (case deleteLoop p (hn_ID dnsHostName) records [] [] w1 of
             ((deletedRecords, deleteErrors), w2) \<Rightarrow>
               ((deletedRecords, errors_Join deleteErrors), w2)))"

section \<open>Vocabulary of the properties\<close>

text \<open>The record types that \<^verbatim>\<open>libdnsRecordToDnsRecord\<close> encodes.\<close>

definition knownTypes :: "string list" where
  "knownTypes = [''A'', ''AAAA'', ''CNAME'', ''MX'', ''NS'', ''PTR'', ''SPF'', ''TXT'']"

section \<open>Batches as lists of outcomes\<close>

text \<open>
  What the spec says of a batch, written as definitions to compare the loops with: each
  record has one outcome, the error of its translation or of its remote call, or the
  record that succeeded; the outcomes are computed in input order, every record from the
  state its predecessors left, whatever their outcome; the operation returns the records
  that succeeded and the join of the errors.
\<close>

definition upsertOne ::
  "'w Provider \<Rightarrow> string \<Rightarrow> 64 word \<Rightarrow> bool \<Rightarrow> libdns_Record \<Rightarrow> 'w \<Rightarrow>
     (error + libdns_Record) \<times> 'w" where
  "upsertOne p domain hostnameId ignoreRecordId rec w =
     (case libdnsRecordToDnsRecord rec domain (OwnDomain p) of
        (dnsRecord, Some err) \<Rightarrow> (Inl err, w)
      | (dnsRecord, None) \<Rightarrow>
          (case AddOrUpdateRecord (Client p) w hostnameId dnsRecord ignoreRecordId of
             (Inl err, w') \<Rightarrow> (Inl (RecordError rec err), w')
           | (Inr updateResponse, w') \<Rightarrow>
               (Inr (dnsRecordToLibdnsRecord updateResponse domain), w')))"

definition deleteOne ::
  "'w Provider \<Rightarrow> 64 word \<Rightarrow> libdns_Record \<Rightarrow> 'w \<Rightarrow> (error + libdns_Record) \<times> 'w" where
  "deleteOne p hostnameId rec w =
     (case DeleteRecord (Client p) w hostnameId (ID rec) of
        (Some err, w') \<Rightarrow> (Inl (RecordIdError (ID rec) err), w')
      | (None, w') \<Rightarrow> (Inr rec, w'))"

fun outcomes ::
  "('r \<Rightarrow> 'w \<Rightarrow> (error + libdns_Record) \<times> 'w) \<Rightarrow> 'r list \<Rightarrow> 'w \<Rightarrow>
     (error + libdns_Record) list \<times> 'w" where
  "outcomes step [] w = ([], w)"
| "outcomes step (r # rs) w =
     (case step r w of (out, w') \<Rightarrow>
        (case outcomes step rs w' of (outs, w'') \<Rightarrow> (out # outs, w'')))"

definition failures :: "(error + libdns_Record) list \<Rightarrow> error list" where
  "failures outs = List.map_filter (\<lambda>out. case out of Inl err \<Rightarrow> Some err | Inr rec \<Rightarrow> None) outs"

definition successes :: "(error + libdns_Record) list \<Rightarrow> libdns_Record list" where
  "successes outs = List.map_filter (\<lambda>out. case out of Inl err \<Rightarrow> None | Inr rec \<Rightarrow> Some rec) outs"

definition batchResult ::
  "(error + libdns_Record) list \<times> 'w \<Rightarrow> (libdns_Record list \<times> error option) \<times> 'w" where
  "batchResult r = ((successes (fst r), errors_Join (failures (fst r))), snd r)"

text \<open>
  The results of the remote delete calls of a batch, in input order.
\<close>

fun deleteCalls :: "'w Provider \<Rightarrow> 64 word \<Rightarrow> libdns_Record list \<Rightarrow> 'w \<Rightarrow> error option list" where
  "deleteCalls p hostnameId [] w = []"
| "deleteCalls p hostnameId (rec # records) w =
     (case DeleteRecord (Client p) w hostnameId (ID rec) of
        (err, w') \<Rightarrow> err # deleteCalls p hostnameId records w')"

section \<open>Observing the requests\<close>

text \<open>
  To say which requests an operation sends, the transport is wrapped so that the state of
  the remote side carries the list of the requests made so far.
\<close>

definition recording :: "'w Transport \<Rightarrow> ('w \<times> request list) Transport" where
  "recording t =
     \<lparr>do_DNSHostname = (\<lambda>(w, sent) rq.
        case do_DNSHostname t w rq of (res, w') \<Rightarrow> (res, (w', sent @ [rq]))),
      do_RecordsResponse = (\<lambda>(w, sent) rq.
        case do_RecordsResponse t w rq of (res, w') \<Rightarrow> (res, (w', sent @ [rq]))),
      do_DNSRecord = (\<lambda>(w, sent) rq.
        case do_DNSRecord t w rq of (res, w') \<Rightarrow> (res, (w', sent @ [rq]))),
      do_DeleteResponse = (\<lambda>(w, sent) rq.
        case do_DeleteResponse t w rq of (res, w') \<Rightarrow> (res, (w', sent @ [rq])))\<rparr>"

definition recordingProvider :: "'w Provider \<Rightarrow> ('w \<times> request list) Provider" where
  "recordingProvider p =
     \<lparr>OwnDomain = OwnDomain p,
      Client = \<lparr>HTTPClient = recording (HTTPClient (Client p)), APIToken = APIToken (Client p)\<rparr>\<rparr>"

definition requestsSent :: "'a \<times> 'w \<times> request list \<Rightarrow> request list" where
  "requestsSent result = snd (snd result)"

text \<open>
  The requests the client builds: root resolution for a hostname, the listing, the
  create-or-update of a record and the deletion of a record.
\<close>

definition rootRequest :: "'w Provider \<Rightarrow> string \<Rightarrow> request" where
  "rootRequest p hostname =
     \<lparr>req_method = MethodGet, req_elems = [''dns'', ''getroot'', hostname],
      req_body = None, req_APIKey = APIToken (Client p)\<rparr>"

definition listRequest :: "'w Provider \<Rightarrow> 64 word \<Rightarrow> request" where
  "listRequest p hostnameId =
     \<lparr>req_method = MethodGet, req_elems = [''dns'', Sprint hostnameId, ''record''],
      req_body = None, req_APIKey = APIToken (Client p)\<rparr>"

definition upsertRequest :: "'w Provider \<Rightarrow> 64 word \<Rightarrow> bool \<Rightarrow> DNSRecord \<Rightarrow> request" where
  "upsertRequest p hostnameId ignoreRecordId record =
     \<lparr>req_method = MethodPost,
      req_elems = (if dns_ID record \<noteq> 0 \<and> \<not> ignoreRecordId
                   then [''dns'', Sprint hostnameId, ''record'', Sprint (dns_ID record)]
                   else [''dns'', Sprint hostnameId, ''record'']),
      req_body = Some record, req_APIKey = APIToken (Client p)\<rparr>"

definition deleteRequest :: "'w Provider \<Rightarrow> 64 word \<Rightarrow> libdns_Record \<Rightarrow> request" where
  "deleteRequest p hostnameId rec =
     \<lparr>req_method = MethodDelete, req_elems = [''dns'', Sprint hostnameId, ''record'', ID rec],
      req_body = None, req_APIKey = APIToken (Client p)\<rparr>"

section \<open>A provider to test against\<close>

text \<open>
  Modelled from the spec: the remote provider is not part of the sources. Section 8 has the
  provider echo a written record "with the same fields", its \<^verbatim>\<open>hostname\<close> rebuilt from
  \<^verbatim>\<open>nodeName\<close> and the owning domain: the owning domain itself for the empty node name,
  node name, dot and owning domain otherwise (as in the records of the repository's tests:
  node \<^verbatim>\<open>abc\<close> under \<^verbatim>\<open>my.dynu.com\<close> has hostname \<^verbatim>\<open>abc.my.dynu.com\<close>).
\<close>

definition provider_echo :: "string \<Rightarrow> DNSRecord \<Rightarrow> DNSRecord" where
  "provider_echo ownDomain record =
     record\<lparr>Hostname := (if NodeName record = [] then ownDomain
                           else NodeName record @ ''.'' @ ownDomain)\<rparr>"

text \<open>
  A stand-in for the remote side, for concrete instances: it manages the one domain
  \<^verbatim>\<open>example.com\<close> with identifier 7, echoes every record written (the state counts them
  and numbers them from 100), loses the connection on the node name \<^verbatim>\<open>down\<close>, and knows
  no record with identifier 404.
\<close>

definition noException :: APIException where
  "noException = \<lparr>exc_StatusCode = 0, exc_Type = [], exc_Message = []\<rparr>"

definition notFound :: APIException where
  "notFound = \<lparr>exc_StatusCode = 501, exc_Type = ''Not Found'', exc_Message = ''Not found''\<rparr>"

definition stubTransport :: "nat Transport" where
  "stubTransport =
     \<lparr>do_DNSHostname = (\<lambda>w rq.
        if req_elems rq = [''dns'', ''getroot'', ''example.com'']
        then (Inr (\<lparr>hn_StatusCode = 200, hn_ID = 7, hn_DomainName = ''example.com'',
                     hn_Hostname = ''example.com'', hn_Node = []\<rparr>, noException), w)
        else (Inr (\<lparr>hn_StatusCode = 0, hn_ID = 0, hn_DomainName = [], hn_Hostname = [],
                     hn_Node = []\<rparr>, notFound), w)),
      do_RecordsResponse = (\<lambda>w rq. (Inr (\<lparr>rr_StatusCode = 200, DNSRecords = []\<rparr>, noException), w)),
      do_DNSRecord = (\<lambda>w rq.
        case req_body rq of
          None \<Rightarrow> (Inl (DecodeError ''no body''), w)
        | Some record \<Rightarrow>
            if NodeName record = ''down'' then (Inl (TransportError ''connection reset''), w)
            else (Inr (provider_echo ''example.com''
                         (record\<lparr>dns_ID := 100 + of_nat w, dns_StatusCode := 200\<rparr>),
                       noException), Suc w)),
      do_DeleteResponse = (\<lambda>w rq.
        if last (req_elems rq) = ''404'' then (Inr (\<lparr>del_StatusCode = 0\<rparr>, notFound), w)
        else (Inr (\<lparr>del_StatusCode = 200\<rparr>, noException), w))\<rparr>"

definition stubProvider :: "string \<Rightarrow> nat Provider" where
  "stubProvider ownDomain =
     \<lparr>OwnDomain = ownDomain, Client = \<lparr>HTTPClient = stubTransport, APIToken = ''token''\<rparr>\<rparr>"

definition txtRecord :: "string \<Rightarrow> string \<Rightarrow> string \<Rightarrow> libdns_Record" where
  "txtRecord i n v = \<lparr>ID = i, Type = ''TXT'', Name = n, Value = v, TTL = 120000000000, Priority = 0\<rparr>"

text \<open>
  The number a string of decimal digits denotes.
\<close>

definition decimalValue :: "string \<Rightarrow> int" where
  "decimalValue s = foldl (\<lambda>n c. 10 * n + (of_char c - 48)) 0 s"

text \<open>
  Names that rebase cleanly: a name with no trailing dot, and a name that is a domain or
  lies below it, that is, is a non-empty string followed by a dot and the domain.
\<close>

definition noTrailingDot :: "string \<Rightarrow> bool" where
  "noTrailingDot s = (s \<noteq> [] \<and> last s \<noteq> CHR ''.'')"

definition atOrUnder :: "string \<Rightarrow> string \<Rightarrow> bool" where
  "atOrUnder name d =
     (name = d \<or>
      (let s = take (length name - length d - 1) name
       in s \<noteq> [] \<and> name = s @ ''.'' @ d))"

text \<open>
  An A record, for concrete instances.
\<close>

definition aRecord :: "string \<Rightarrow> string \<Rightarrow> string \<Rightarrow> 64 word \<Rightarrow> libdns_Record" where
  "aRecord i n v ttl = \<lparr>ID = i, Type = ''A'', Name = n, Value = v, TTL = ttl, Priority = 0\<rparr>"

section \<open>Properties\<close>

lemma trimRightByte_append_replicate:
  "trimRightByte s c @ replicate (length s - length (trimRightByte s c)) c = s"
proof (induction s c rule: trimRightByte.induct)
  case (1 s c)
  show ?case
  proof (cases "s \<noteq> [] \<and> last s = c")
    case True
    let ?t = "trimRightByte (butlast s) c"
    have eq: "trimRightByte s c = ?t"
      using True by (subst trimRightByte.simps) simp
    have ih: "?t @ replicate (length (butlast s) - length ?t) c = butlast s"
      using 1 True by simp
    have le: "length ?t \<le> length (butlast s)"
      by (metis ih length_append le_add1)
    have "length s - length ?t = Suc (length (butlast s) - length ?t)"
      using True le by (cases s rule: rev_cases) auto
    then have "?t @ replicate (length s - length ?t) c = butlast s @ [c]"
      using ih by (simp add: replicate_append_same [symmetric] del: replicate_Suc)
        (metis append_assoc ih replicate_append_same replicate_Suc)
    also have "\<dots> = s"
      using True by (metis append_butlast_last_id)
    finally show ?thesis by (simp add: eq)
  next
    case False
    then show ?thesis by (subst (1 2) trimRightByte.simps) auto
  qed
qed

lemma trimRightByte_no_trailing:
  "trimRightByte s c = [] \<or> last (trimRightByte s c) \<noteq> c"
proof (induction s c rule: trimRightByte.induct)
  case (1 s c)
  show ?case
  proof (cases "s \<noteq> [] \<and> last s = c")
    case True
    then show ?thesis using 1 by (subst (1 2) trimRightByte.simps) simp
  next
    case False
    then show ?thesis by (subst (1 2) trimRightByte.simps) auto
  qed
qed


subsection \<open>Zone normalisation\<close>

text \<open>
  C7 (as stated, refuted): the claim has the facade remove exactly one trailing dot, so that
  a zone ending in several dots keeps all but one. \<^verbatim>\<open>strings.TrimRight\<close> removes the whole
  run: from \<^verbatim>\<open>"example.com.."\<close> nothing of the two dots is left.
\<close>

theorem zoneToFqdn_two_dots_counterexample:
  "zoneToFqdn ''example.com..'' = ''example.com'' \<and> zoneToFqdn ''example.com..'' \<noteq> ''example.com.''"
  by (simp add: zoneToFqdn_def TrimRight_def trimRightByte.simps)

text \<open>
  C7 (amended): for every caller-supplied zone string, the facade's zone normalisation
  removes every trailing dot: the zone is the result followed by dots only, and the result
  does not end in a dot. So \<^verbatim>\<open>"example.com."\<close> becomes \<^verbatim>\<open>"example.com"\<close>, and so does a
  zone ending in several dots.
\<close>

theorem zoneToFqdn_strips_every_trailing_dot:
  "zone = zoneToFqdn zone @ replicate (length zone - length (zoneToFqdn zone)) (CHR ''.'') \<and>
   \<not> HasSuffix (zoneToFqdn zone) ''.''"
proof
  show "zone = zoneToFqdn zone @ replicate (length zone - length (zoneToFqdn zone)) (CHR ''.'')"
    by (simp add: zoneToFqdn_def TrimRight_def trimRightByte_append_replicate)
next
  have "trimRightByte zone (CHR ''.'') = [] \<or> last (trimRightByte zone (CHR ''.'')) \<noteq> CHR ''.''"
    by (rule trimRightByte_no_trailing)
  then show "\<not> HasSuffix (zoneToFqdn zone) ''.''"
    by (cases "trimRightByte zone (CHR ''.'')" rule: rev_cases)
      (auto simp: zoneToFqdn_def TrimRight_def HasSuffix_def)
qed

theorem zoneToFqdn_strips_every_trailing_dot_witness:
  "zoneToFqdn ''example.com.'' = ''example.com'' \<and> \<not> HasSuffix (zoneToFqdn ''example.com.'') ''.''"
  using zoneToFqdn_strips_every_trailing_dot [of "''example.com.''"]
  by (simp add: zoneToFqdn_def TrimRight_def trimRightByte.simps)

subsection \<open>Fields of the two translations\<close>

lemma toProvider_NodeName:
  "NodeName (fst (libdnsRecordToDnsRecord r domain own)) =
     (if Type r = ''PTR'' then RelativeName (Value r) own
      else RelativeName (AbsoluteName (if Name r = ''@'' then [] else Name r) domain) own)"
  by (simp add: libdnsRecordToDnsRecord_def Let_def)

lemma toProvider_Host:
  "Host (fst (libdnsRecordToDnsRecord r domain own)) =
     (if Type r \<in> {''CNAME'', ''MX'', ''NS''} then Value r
      else if Type r = ''PTR'' then Name r else [])"
  by (simp add: libdnsRecordToDnsRecord_def Let_def zeroDNSRecord_def)

lemma toProvider_error:
  "snd (libdnsRecordToDnsRecord r domain own) =
     (if Type r \<in> set knownTypes then None else Some (NotImplemented r))"
  by (simp add: libdnsRecordToDnsRecord_def Let_def knownTypes_def)

lemma toProvider_Type: "dns_Type (fst (libdnsRecordToDnsRecord r domain own)) = Type r"
  by (simp add: libdnsRecordToDnsRecord_def Let_def)

lemma toProvider_TTL:
  "dns_TTL (fst (libdnsRecordToDnsRecord r domain own)) = truncToInt (Seconds (TTL r))"
  by (simp add: libdnsRecordToDnsRecord_def Let_def)

lemma toProvider_ID: "dns_ID (fst (libdnsRecordToDnsRecord r domain own)) = Sscan (ID r)"
  by (simp add: libdnsRecordToDnsRecord_def Let_def)

lemma toNormalized_Name:
  "Name (dnsRecordToLibdnsRecord d domain) =
     (if dns_Type d = ''PTR'' then Host d
      else if RelativeName (Hostname d) domain = [] then ''@''
      else RelativeName (Hostname d) domain)"
  by (simp add: dnsRecordToLibdnsRecord_def Let_def)

lemma toNormalized_Value:
  "Value (dnsRecordToLibdnsRecord d domain) =
     (if dns_Type d = ''A'' then Ipv4Address d
      else if dns_Type d = ''AAAA'' then Ipv6Address d
      else if dns_Type d \<in> {''CNAME'', ''MX'', ''NS''} then Host d
      else if dns_Type d = ''PTR'' then Hostname d
      else if dns_Type d \<in> {''SPF'', ''TXT''} then TextData d
      else Content d)"
  by (simp add: dnsRecordToLibdnsRecord_def Let_def)

lemma toNormalized_Type: "Type (dnsRecordToLibdnsRecord d domain) = dns_Type d"
  by (simp add: dnsRecordToLibdnsRecord_def Let_def)

lemma toNormalized_TTL:
  "TTL (dnsRecordToLibdnsRecord d domain) = dns_TTL d * word_of_int Second"
  by (simp add: dnsRecordToLibdnsRecord_def Let_def)

lemma TrimSuffix_self: "TrimSuffix s s = []"
  by (simp add: TrimSuffix_def HasSuffix_def)

lemma TrimSuffix_Nil: "TrimSuffix [] s = []"
  by (simp add: TrimSuffix_def HasSuffix_def)

lemma RelativeName_self: "RelativeName z z = []"
  by (simp add: RelativeName_def TrimSuffix_self TrimSuffix_Nil)

lemma AbsoluteName_Nil: "AbsoluteName [] zone = zone"
  by (simp add: AbsoluteName_def Trim_def trimLeftByte.simps trimRightByte.simps)

subsection \<open>Record types\<close>

text \<open>
  C5: a normalized record whose type is outside the known set makes
  \<^verbatim>\<open>libdnsRecordToDnsRecord\<close> return the error "record type not implemented" for that
  record. \<^verbatim>\<open>dnsRecordToLibdnsRecord\<close> returns a record and no error for every provider
  record; for a type outside the known set the value is the provider's \<^verbatim>\<open>content\<close> field
  and the type tag is passed on.
\<close>

theorem type_handling_asymmetric:
  "(Type r \<notin> set knownTypes \<longrightarrow>
      snd (libdnsRecordToDnsRecord r domain own) = Some (NotImplemented r)) \<and>
   (dns_Type d \<notin> set knownTypes \<longrightarrow>
      Value (dnsRecordToLibdnsRecord d zone) = Content d \<and>
      Type (dnsRecordToLibdnsRecord d zone) = dns_Type d)"
  by (simp add: toProvider_error toNormalized_Value toNormalized_Type knownTypes_def)

text \<open>The instance of the spec: type \<^verbatim>\<open>UNKNOWN\<close> with value and content \<^verbatim>\<open>x\<close>.\<close>

theorem type_handling_asymmetric_witness:
  "snd (libdnsRecordToDnsRecord
          \<lparr>ID = [], Type = ''UNKNOWN'', Name = ''abc'', Value = ''x'', TTL = 0, Priority = 0\<rparr>
          ''example.com'' ''example.com'') =
     Some (NotImplemented
          \<lparr>ID = [], Type = ''UNKNOWN'', Name = ''abc'', Value = ''x'', TTL = 0, Priority = 0\<rparr>) \<and>
   Value (dnsRecordToLibdnsRecord (zeroDNSRecord\<lparr>dns_Type := ''UNKNOWN'', Content := ''x''\<rparr>)
          ''example.com'') = ''x''"
  using type_handling_asymmetric
    [of "\<lparr>ID = [], Type = ''UNKNOWN'', Name = ''abc'', Value = ''x'', TTL = 0, Priority = 0\<rparr>"
        "''example.com''" "''example.com''"
        "zeroDNSRecord\<lparr>dns_Type := ''UNKNOWN'', Content := ''x''\<rparr>" "''example.com''"]
  by (simp add: knownTypes_def)

subsection \<open>PTR records\<close>

text \<open>
  C3: for a normalized PTR record the provider's \<^verbatim>\<open>host\<close> is the caller's name as given,
  and \<^verbatim>\<open>nodeName\<close> is the caller's value made relative to the owning domain. For a
  provider PTR record the normalized name is the provider's \<^verbatim>\<open>host\<close> and the value is
  the provider's \<^verbatim>\<open>hostname\<close>.
\<close>

theorem PTR_fields:
  "(Type r = ''PTR'' \<longrightarrow>
      Host (fst (libdnsRecordToDnsRecord r domain own)) = Name r \<and>
      NodeName (fst (libdnsRecordToDnsRecord r domain own)) = RelativeName (Value r) own) \<and>
   (dns_Type d = ''PTR'' \<longrightarrow>
      Name (dnsRecordToLibdnsRecord d zone) = Host d \<and>
      Value (dnsRecordToLibdnsRecord d zone) = Hostname d)"
  by (simp add: toProvider_Host toProvider_NodeName toNormalized_Name toNormalized_Value)


text \<open>The PTR records of the repository's tests.\<close>

theorem PTR_fields_witness:
  "Host (fst (libdnsRecordToDnsRecord
       \<lparr>ID = ''123'', Type = ''PTR'', Name = ''10.207.160.216.in-addr.arpa'',
        Value = ''abc.my.dynu.com'', TTL = 120000000000, Priority = 0\<rparr>
       ''dynu.com'' ''my.dynu.com'')) = ''10.207.160.216.in-addr.arpa'' \<and>
   NodeName (fst (libdnsRecordToDnsRecord
       \<lparr>ID = ''123'', Type = ''PTR'', Name = ''10.207.160.216.in-addr.arpa'',
        Value = ''abc.my.dynu.com'', TTL = 120000000000, Priority = 0\<rparr>
       ''dynu.com'' ''my.dynu.com'')) = ''abc'' \<and>
   Name (dnsRecordToLibdnsRecord
       (zeroDNSRecord\<lparr>dns_Type := ''PTR'', Hostname := ''abc.my.dynu.com'',
          Host := ''10.207.160.216.in-addr.arpa''\<rparr>) ''dynu.com'') = ''10.207.160.216.in-addr.arpa'' \<and>
   Value (dnsRecordToLibdnsRecord
       (zeroDNSRecord\<lparr>dns_Type := ''PTR'', Hostname := ''abc.my.dynu.com'',
          Host := ''10.207.160.216.in-addr.arpa''\<rparr>) ''dynu.com'') = ''abc.my.dynu.com''"
  using PTR_fields
    [of "\<lparr>ID = ''123'', Type = ''PTR'', Name = ''10.207.160.216.in-addr.arpa'',
          Value = ''abc.my.dynu.com'', TTL = 120000000000, Priority = 0\<rparr>"
        "''dynu.com''" "''my.dynu.com''"
        "zeroDNSRecord\<lparr>dns_Type := ''PTR'', Hostname := ''abc.my.dynu.com'',
          Host := ''10.207.160.216.in-addr.arpa''\<rparr>" "''dynu.com''"]
  by (simp add: RelativeName_def TrimSuffix_def HasSuffix_def)

subsection \<open>The apex\<close>

text \<open>
  C4 (as stated, refuted): the claim is for every record and every pair of domains. With an
  owning domain below the zone the apex name \<^verbatim>\<open>"@"\<close> gets the zone itself as node name; a
  PTR record takes its node name from the value, whatever the name; and a provider PTR
  record at the zone's own hostname gets its name from \<^verbatim>\<open>host\<close>.
\<close>

theorem apex_counterexample:
  "NodeName (fst (libdnsRecordToDnsRecord
       \<lparr>ID = [], Type = ''A'', Name = ''@'', Value = ''1.2.3.4'', TTL = 0, Priority = 0\<rparr>
       ''example.com'' ''my.example.com'')) \<noteq> [] \<and>
   NodeName (fst (libdnsRecordToDnsRecord
       \<lparr>ID = [], Type = ''PTR'', Name = ''@'', Value = ''host.example.com'', TTL = 0, Priority = 0\<rparr>
       ''example.com'' ''example.com'')) \<noteq> [] \<and>
   Name (dnsRecordToLibdnsRecord
       (zeroDNSRecord\<lparr>dns_Type := ''PTR'', Hostname := ''example.com'',
          Host := ''1.0.0.10.in-addr.arpa''\<rparr>) ''example.com'') \<noteq> ''@''"
  by (simp add: toProvider_NodeName toNormalized_Name RelativeName_def AbsoluteName_def
      TrimSuffix_def HasSuffix_def)

text \<open>
  C4 (amended): for every record other than a PTR record, with the owning domain equal to
  the zone domain, a normalized name \<^verbatim>\<open>"@"\<close> translates to an empty node name; and a
  provider record other than a PTR record whose hostname equals the zone domain
  translates back to the name \<^verbatim>\<open>"@"\<close>.
\<close>

theorem apex_mapping:
  "(Type r \<noteq> ''PTR'' \<and> Name r = ''@'' \<longrightarrow>
      NodeName (fst (libdnsRecordToDnsRecord r zone zone)) = []) \<and>
   (dns_Type d \<noteq> ''PTR'' \<and> Hostname d = zone \<longrightarrow>
      Name (dnsRecordToLibdnsRecord d zone) = ''@'')"
  by (simp add: toProvider_NodeName toNormalized_Name AbsoluteName_Nil RelativeName_self)

text \<open>The apex records of the repository's tests.\<close>

theorem apex_mapping_witness:
  "NodeName (fst (libdnsRecordToDnsRecord
       \<lparr>ID = ''123'', Type = ''A'', Name = ''@'', Value = ''1.2.3.4'', TTL = 120000000000, Priority = 0\<rparr>
       ''dynu.com'' ''dynu.com'')) = [] \<and>
   Name (dnsRecordToLibdnsRecord
       (zeroDNSRecord\<lparr>dns_ID := 123, dns_Type := ''A'', DomainName := ''dynu.com'',
          Hostname := ''dynu.com'', dns_TTL := 120\<rparr>) ''dynu.com'') = ''@''"
  using apex_mapping
    [of "\<lparr>ID = ''123'', Type = ''A'', Name = ''@'', Value = ''1.2.3.4'', TTL = 120000000000, Priority = 0\<rparr>"
        "''dynu.com''"
        "zeroDNSRecord\<lparr>dns_ID := 123, dns_Type := ''A'', DomainName := ''dynu.com'',
          Hostname := ''dynu.com'', dns_TTL := 120\<rparr>"]
  by simp

subsection \<open>The loops of the batch operations\<close>

lemma failures_simps [simp]:
  "failures [] = []" "failures (Inl e # outs) = e # failures outs"
  "failures (Inr r # outs) = failures outs"
  by (simp_all add: failures_def List.map_filter_simps)

lemma successes_simps [simp]:
  "successes [] = []" "successes (Inl e # outs) = successes outs"
  "successes (Inr r # outs) = r # successes outs"
  by (simp_all add: successes_def List.map_filter_simps)

lemma length_outcomes: "length (fst (outcomes step rs w)) = length rs"
proof (induction rs arbitrary: w)
  case Nil
  show ?case by simp
next
  case (Cons r rs)
  obtain out w' where st: "step r w = (out, w')" by (cases "step r w")
  obtain outs w'' where rest: "outcomes step rs w' = (outs, w'')" by (cases "outcomes step rs w'")
  from Cons.IH [of w'] rest have "length outs = length rs" by simp
  with st rest show ?case by simp
qed

lemma deleteLoop_zip:
  "fst (fst (deleteLoop p hid records deleted errs w)) =
     deleted @ map fst (filter (\<lambda>(rec, err). err = None) (zip records (deleteCalls p hid records w)))"
proof (induction records arbitrary: deleted errs w)
  case Nil
  show ?case by simp
next
  case (Cons rec records)
  obtain err w' where call: "DeleteRecord (Client p) w hid (ID rec) = (err, w')"
    by (cases "DeleteRecord (Client p) w hid (ID rec)")
  show ?case
  proof (cases err)
    case None
    with call Cons.IH [of "deleted @ [rec]" errs w'] show ?thesis by simp
  next
    case (Some e)
    with call Cons.IH [of deleted "errs @ [RecordIdError (ID rec) e]" w'] show ?thesis by simp
  qed
qed

lemma deleteLoop_outcomes:
  "deleteLoop p hid records deleted errs w =
     (case outcomes (deleteOne p hid) records w of
        (outs, w') \<Rightarrow> ((deleted @ successes outs, errs @ failures outs), w'))"
proof (induction records arbitrary: deleted errs w)
  case Nil
  show ?case by simp
next
  case (Cons rec records)
  obtain err w' where call: "DeleteRecord (Client p) w hid (ID rec) = (err, w')"
    by (cases "DeleteRecord (Client p) w hid (ID rec)")
  show ?case
  proof (cases err)
    case None
    with call Cons.IH [of "deleted @ [rec]" errs w'] show ?thesis
      by (simp add: deleteOne_def split: prod.splits)
  next
    case (Some e)
    with call Cons.IH [of deleted "errs @ [RecordIdError (ID rec) e]" w'] show ?thesis
      by (simp add: deleteOne_def split: prod.splits)
  qed
qed

lemma appendOrSetLoop_outcomes:
  "appendOrSetLoop p domain hid ign records updated errs w =
     (case outcomes (upsertOne p domain hid ign) records w of
        (outs, w') \<Rightarrow> ((updated @ successes outs, errs @ failures outs), w'))"
proof (induction records arbitrary: updated errs w)
  case Nil
  show ?case by simp
next
  case (Cons rec records)
  obtain d terr where tr: "libdnsRecordToDnsRecord rec domain (OwnDomain p) = (d, terr)"
    by (cases "libdnsRecordToDnsRecord rec domain (OwnDomain p)")
  show ?case
  proof (cases terr)
    case (Some e)
    with tr Cons.IH [of updated "errs @ [e]" w] show ?thesis
      by (simp add: upsertOne_def split: prod.splits)
  next
    case None
    obtain res w' where call: "AddOrUpdateRecord (Client p) w hid d ign = (res, w')"
      by (cases "AddOrUpdateRecord (Client p) w hid d ign")
    show ?thesis
    proof (cases res)
      case (Inl e)
      with None tr call Cons.IH [of updated "errs @ [RecordError rec e]" w'] show ?thesis
        by (simp add: upsertOne_def split: prod.splits)
    next
      case (Inr resp)
      with None tr call Cons.IH [of "updated @ [dnsRecordToLibdnsRecord resp domain]" errs w']
      show ?thesis
        by (simp add: upsertOne_def split: prod.splits)
    qed
  qed
qed

subsection \<open>The requests of each operation\<close>

lemma recording_OwnDomain [simp]: "OwnDomain (recordingProvider p) = OwnDomain p"
  by (simp add: recordingProvider_def)

lemma recording_GetRootDomain:
  "GetRootDomain (Client (recordingProvider p)) (w, sent) hostname =
     (case GetRootDomain (Client p) w hostname of
        (res, w') \<Rightarrow> (res, (w', sent @ [rootRequest p hostname])))"
  by (simp add: GetRootDomain_def recordingProvider_def recording_def rootRequest_def
      split: prod.splits sum.splits)

lemma recording_GetRecords:
  "GetRecords (Client (recordingProvider p)) (w, sent) hid =
     (case GetRecords (Client p) w hid of (res, w') \<Rightarrow> (res, (w', sent @ [listRequest p hid])))"
  by (simp add: GetRecords_def recordingProvider_def recording_def listRequest_def
      split: prod.splits sum.splits)

lemma recording_AddOrUpdateRecord:
  "AddOrUpdateRecord (Client (recordingProvider p)) (w, sent) hid d ign =
     (case AddOrUpdateRecord (Client p) w hid d ign of
        (res, w') \<Rightarrow> (res, (w', sent @ [upsertRequest p hid ign d])))"
  by (simp add: AddOrUpdateRecord_def recordingProvider_def recording_def upsertRequest_def Let_def
      split: prod.splits sum.splits)

lemma recording_DeleteRecord:
  "DeleteRecord (Client (recordingProvider p)) (w, sent) hid (ID rec) =
     (case DeleteRecord (Client p) w hid (ID rec) of
        (res, w') \<Rightarrow> (res, (w', sent @ [deleteRequest p hid rec])))"
  by (simp add: DeleteRecord_def recordingProvider_def recording_def deleteRequest_def
      split: prod.splits sum.splits)

lemma recording_appendOrSetLoop:
  "snd (snd (appendOrSetLoop (recordingProvider p) domain hid ign records updated errs (w, sent))) =
     sent @ map (\<lambda>rec. upsertRequest p hid ign (fst (libdnsRecordToDnsRecord rec domain (OwnDomain p))))
            (filter (\<lambda>rec. snd (libdnsRecordToDnsRecord rec domain (OwnDomain p)) = None) records)"
proof (induction records arbitrary: updated errs w sent)
  case Nil
  show ?case by simp
next
  case (Cons rec records)
  obtain d terr where tr: "libdnsRecordToDnsRecord rec domain (OwnDomain p) = (d, terr)"
    by (cases "libdnsRecordToDnsRecord rec domain (OwnDomain p)")
  show ?case
  proof (cases terr)
    case (Some e)
    with tr Cons.IH [of updated "errs @ [e]" w sent] show ?thesis by simp
  next
    case None
    obtain res w' where call: "AddOrUpdateRecord (Client p) w hid d ign = (res, w')"
      by (cases "AddOrUpdateRecord (Client p) w hid d ign")
    show ?thesis
    proof (cases res)
      case (Inl e)
      with None tr call
        Cons.IH [of updated "errs @ [RecordError rec e]" w' "sent @ [upsertRequest p hid ign d]"]
      show ?thesis by (simp add: recording_AddOrUpdateRecord)
    next
      case (Inr resp)
      with None tr call
        Cons.IH [of "updated @ [dnsRecordToLibdnsRecord resp domain]" errs w'
                    "sent @ [upsertRequest p hid ign d]"]
      show ?thesis by (simp add: recording_AddOrUpdateRecord)
    qed
  qed
qed

lemma recording_appendOrSetRecords:
  "snd (snd (appendOrSetRecords (recordingProvider p) (w, []) zone records ign)) =
     rootRequest p (OwnDomain p) #
     (case GetRootDomain (Client p) w (OwnDomain p) of
        (Inl err, w1) \<Rightarrow> []
      | (Inr h, w1) \<Rightarrow>
          map (\<lambda>rec. upsertRequest p (hn_ID h) ign
                 (fst (libdnsRecordToDnsRecord rec (zoneToFqdn zone) (OwnDomain p))))
            (filter (\<lambda>rec. snd (libdnsRecordToDnsRecord rec (zoneToFqdn zone) (OwnDomain p)) = None)
               records))"
proof -
  obtain res w1 where root: "GetRootDomain (Client p) w (OwnDomain p) = (res, w1)"
    by (cases "GetRootDomain (Client p) w (OwnDomain p)")
  show ?thesis
  proof (cases res)
    case (Inl e)
    with root show ?thesis
      by (simp add: appendOrSetRecords_def recording_GetRootDomain)
  next
    case (Inr h)
    have "snd (snd (appendOrSetRecords (recordingProvider p) (w, []) zone records ign)) =
      snd (snd (appendOrSetLoop (recordingProvider p) (zoneToFqdn zone) (hn_ID h) ign records [] []
        (w1, [rootRequest p (OwnDomain p)])))"
      using root Inr
      by (simp add: appendOrSetRecords_def recording_GetRootDomain split: prod.splits)
    with root Inr show ?thesis
      by (simp add: recording_appendOrSetLoop)
  qed
qed

lemma recording_deleteLoop:
  "snd (snd (deleteLoop (recordingProvider p) hid records deleted errs (w, sent))) =
     sent @ map (deleteRequest p hid) records"
proof (induction records arbitrary: deleted errs w sent)
  case Nil
  show ?case by simp
next
  case (Cons rec records)
  obtain err w' where call: "DeleteRecord (Client p) w hid (ID rec) = (err, w')"
    by (cases "DeleteRecord (Client p) w hid (ID rec)")
  show ?case
  proof (cases err)
    case None
    with call Cons.IH [of "deleted @ [rec]" errs w' "sent @ [deleteRequest p hid rec]"]
    show ?thesis by (simp add: recording_DeleteRecord)
  next
    case (Some e)
    with call Cons.IH [of deleted "errs @ [RecordIdError (ID rec) e]" w'
        "sent @ [deleteRequest p hid rec]"]
    show ?thesis by (simp add: recording_DeleteRecord)
  qed
qed

lemma recording_DeleteRecords:
  "requestsSent (DeleteRecords (recordingProvider p) (w, []) zone records) =
     rootRequest p (OwnDomain p) #
     (case GetRootDomain (Client p) w (OwnDomain p) of
        (Inl err, w1) \<Rightarrow> []
      | (Inr h, w1) \<Rightarrow> map (deleteRequest p (hn_ID h)) records)"
proof -
  obtain res w1 where root: "GetRootDomain (Client p) w (OwnDomain p) = (res, w1)"
    by (cases "GetRootDomain (Client p) w (OwnDomain p)")
  show ?thesis
  proof (cases res)
    case (Inl e)
    with root show ?thesis
      by (simp add: DeleteRecords_def recording_GetRootDomain requestsSent_def)
  next
    case (Inr h)
    have "snd (snd (DeleteRecords (recordingProvider p) (w, []) zone records)) =
      snd (snd (deleteLoop (recordingProvider p) (hn_ID h) records [] []
        (w1, [rootRequest p (OwnDomain p)])))"
      using root Inr by (simp add: DeleteRecords_def recording_GetRootDomain split: prod.splits)
    with root Inr show ?thesis
      by (simp add: recording_deleteLoop requestsSent_def)
  qed
qed

lemma recording_Provider_GetRecords:
  "requestsSent (Provider_GetRecords (recordingProvider p) (w, []) zone) =
     rootRequest p (OwnDomain p) #
     (case GetRootDomain (Client p) w (OwnDomain p) of
        (Inl err, w1) \<Rightarrow> []
      | (Inr h, w1) \<Rightarrow> [listRequest p (hn_ID h)])"
  by (simp add: Provider_GetRecords_def recording_GetRootDomain recording_GetRecords
      requestsSent_def split: prod.splits sum.splits)

subsection \<open>The stand-in provider\<close>

lemma stub_OwnDomain: "OwnDomain (stubProvider d) = d"
  by (simp add: stubProvider_def)

lemma stub_root:
  "GetRootDomain (Client (stubProvider ''example.com'')) w ''example.com'' =
     (Inr \<lparr>hn_StatusCode = 200, hn_ID = 7, hn_DomainName = ''example.com'',
           hn_Hostname = ''example.com'', hn_Node = []\<rparr>, w)"
  by (simp add: GetRootDomain_def stubProvider_def stubTransport_def)

lemma Sprint_7: "Sprint 7 = ''7''"
  by (simp add: Sprint_def natDigits.simps)

lemma stub_delete:
  "DeleteRecord (Client (stubProvider own)) w hid i =
     (if i = ''404'' then Some (APIError notFound) else None, w)"
  by (simp add: DeleteRecord_def stubProvider_def stubTransport_def)

lemma stub_upsert:
  "AddOrUpdateRecord (Client (stubProvider own)) w hid d ign =
     (if NodeName d = ''down'' then (Inl (TransportError ''connection reset''), w)
      else (Inr (provider_echo ''example.com'' (d\<lparr>dns_ID := 100 + of_nat w, dns_StatusCode := 200\<rparr>)),
            Suc w))"
  by (simp add: AddOrUpdateRecord_def stubProvider_def stubTransport_def provider_echo_def Let_def)

lemma zoneToFqdn_example: "zoneToFqdn ''example.com.'' = ''example.com''"
  by (simp add: zoneToFqdn_def TrimRight_def trimRightByte.simps)

lemma RelativeName_examples:
  "RelativeName ''a.example.com'' ''example.com'' = ''a''"
  "RelativeName ''c.example.com'' ''example.com'' = ''c''"
  "RelativeName ''down.example.com'' ''example.com'' = ''down''"
  "RelativeName ''sub.example.com'' ''example.com'' = ''sub''"
  "RelativeName ''sub.example.com'' [] = ''sub.example.com''"
  by (simp_all add: RelativeName_def TrimSuffix_def HasSuffix_def)

lemma AbsoluteName_examples:
  "AbsoluteName ''a'' ''example.com'' = ''a.example.com''"
  "AbsoluteName ''c'' ''example.com'' = ''c.example.com''"
  "AbsoluteName ''down'' ''example.com'' = ''down.example.com''"
  "AbsoluteName ''sub'' ''example.com'' = ''sub.example.com''"
  by (simp_all add: AbsoluteName_def HasSuffix_def)

subsection \<open>Deleted records\<close>

text \<open>
  C9: after root resolution has succeeded, the list \<^verbatim>\<open>DeleteRecords\<close> returns is made of
  the caller's records themselves, unchanged and in input order: exactly those whose
  remote delete call returned no error.
\<close>

theorem DeleteRecords_returns_input_records:
  assumes "GetRootDomain (Client p) w (OwnDomain p) = (Inr h, w1)"
  shows "fst (fst (DeleteRecords p w zone records)) =
           map fst (filter (\<lambda>(rec, err). err = None)
                      (zip records (deleteCalls p (hn_ID h) records w1)))"
proof -
  obtain deleted errs w2 where run: "deleteLoop p (hn_ID h) records [] [] w1 = ((deleted, errs), w2)"
    by (metis surj_pair)
  have "fst (fst (DeleteRecords p w zone records)) = deleted"
    using assms run by (simp add: DeleteRecords_def)
  moreover have "deleted = fst (fst (deleteLoop p (hn_ID h) records [] [] w1))"
    using run by simp
  ultimately show ?thesis
    by (simp add: deleteLoop_zip)
qed

text \<open>
  Three records, the second unknown to the provider: the first and the third come back as
  they were passed.
\<close>

theorem DeleteRecords_returns_input_records_witness:
  "fst (fst (DeleteRecords (stubProvider ''example.com'') 0 ''example.com.''
       [txtRecord ''11'' ''a'' ''x'', txtRecord ''404'' ''b'' ''y'', txtRecord ''13'' ''c'' ''z''])) =
     [txtRecord ''11'' ''a'' ''x'', txtRecord ''13'' ''c'' ''z'']"
proof -
  have root: "GetRootDomain (Client (stubProvider ''example.com'')) 0
      (OwnDomain (stubProvider ''example.com'')) =
    (Inr \<lparr>hn_StatusCode = 200, hn_ID = 7, hn_DomainName = ''example.com'',
          hn_Hostname = ''example.com'', hn_Node = []\<rparr>, 0)"
    by (simp add: stub_root stub_OwnDomain)
  show ?thesis
    using DeleteRecords_returns_input_records [OF root, of "''example.com.''"
        "[txtRecord ''11'' ''a'' ''x'', txtRecord ''404'' ''b'' ''y'', txtRecord ''13'' ''c'' ''z'']"]
    by (simp add: stub_delete txtRecord_def)
qed

subsection \<open>Partial failure of a batch\<close>

text \<open>
  C6: after root resolution has succeeded, \<^verbatim>\<open>AppendRecords\<close>, \<^verbatim>\<open>SetRecords\<close> and
  \<^verbatim>\<open>DeleteRecords\<close> compute one outcome for every record of the batch, in input order
  and whatever the outcomes before it, and return the records that succeeded with the
  join of the errors of those that failed, one error for each in input order. The requests
  show the same: one write for every record that translates and one delete for every
  record, none skipped after a failure. The joined error is nil exactly when no record
  failed.
\<close>

theorem batch_partial_failure:
  assumes "GetRootDomain (Client p) w (OwnDomain p) = (Inr h, w1)"
  shows "AppendRecords p w zone records =
           batchResult (outcomes (upsertOne p (zoneToFqdn zone) (hn_ID h) True) records w1) \<and>
         SetRecords p w zone records =
           batchResult (outcomes (upsertOne p (zoneToFqdn zone) (hn_ID h) False) records w1) \<and>
         DeleteRecords p w zone records =
           batchResult (outcomes (deleteOne p (hn_ID h)) records w1) \<and>
         requestsSent (appendOrSetRecords (recordingProvider p) (w, []) zone records ign) =
           rootRequest p (OwnDomain p) #
           map (\<lambda>rec. upsertRequest p (hn_ID h) ign
                  (fst (libdnsRecordToDnsRecord rec (zoneToFqdn zone) (OwnDomain p))))
             (filter (\<lambda>rec. snd (libdnsRecordToDnsRecord rec (zoneToFqdn zone) (OwnDomain p)) = None)
                records) \<and>
         requestsSent (DeleteRecords (recordingProvider p) (w, []) zone records) =
           rootRequest p (OwnDomain p) # map (deleteRequest p (hn_ID h)) records \<and>
         length (fst (outcomes step records w1)) = length records \<and>
         (errors_Join (failures outs) = None \<longleftrightarrow> failures outs = [])"
proof (intro conjI)
  show "AppendRecords p w zone records =
      batchResult (outcomes (upsertOne p (zoneToFqdn zone) (hn_ID h) True) records w1)"
    using assms
    by (simp add: AppendRecords_def appendOrSetRecords_def appendOrSetLoop_outcomes batchResult_def
        split: prod.splits)
  show "SetRecords p w zone records =
      batchResult (outcomes (upsertOne p (zoneToFqdn zone) (hn_ID h) False) records w1)"
    using assms
    by (simp add: SetRecords_def appendOrSetRecords_def appendOrSetLoop_outcomes batchResult_def
        split: prod.splits)
  show "DeleteRecords p w zone records = batchResult (outcomes (deleteOne p (hn_ID h)) records w1)"
    using assms
    by (simp add: DeleteRecords_def deleteLoop_outcomes batchResult_def split: prod.splits)
  show "requestsSent (appendOrSetRecords (recordingProvider p) (w, []) zone records ign) =
      rootRequest p (OwnDomain p) #
      map (\<lambda>rec. upsertRequest p (hn_ID h) ign
             (fst (libdnsRecordToDnsRecord rec (zoneToFqdn zone) (OwnDomain p))))
        (filter (\<lambda>rec. snd (libdnsRecordToDnsRecord rec (zoneToFqdn zone) (OwnDomain p)) = None)
           records)"
    using assms by (simp add: requestsSent_def recording_appendOrSetRecords)
  show "requestsSent (DeleteRecords (recordingProvider p) (w, []) zone records) =
      rootRequest p (OwnDomain p) # map (deleteRequest p (hn_ID h)) records"
    using assms by (simp add: recording_DeleteRecords)
  show "length (fst (outcomes step records w1)) = length records"
    by (rule length_outcomes)
  show "errors_Join (failures outs) = None \<longleftrightarrow> failures outs = []"
    by (simp add: errors_Join_def)
qed

text \<open>
  A batch of four on the stand-in provider: the second record has an unsupported type and
  the third loses the connection; the first and the fourth are written, and the joined
  error holds the two failures in input order.
\<close>

theorem batch_partial_failure_witness:
  "map Name (fst (fst (AppendRecords (stubProvider ''example.com'') 0 ''example.com.''
       [txtRecord [] ''a'' ''x'', (txtRecord [] ''b'' ''y'')\<lparr>Type := ''UNKNOWN''\<rparr>,
        txtRecord [] ''down'' ''z'', txtRecord [] ''c'' ''v'']))) = [''a'', ''c''] \<and>
   snd (fst (AppendRecords (stubProvider ''example.com'') 0 ''example.com.''
       [txtRecord [] ''a'' ''x'', (txtRecord [] ''b'' ''y'')\<lparr>Type := ''UNKNOWN''\<rparr>,
        txtRecord [] ''down'' ''z'', txtRecord [] ''c'' ''v''])) =
     Some (JoinError [NotImplemented ((txtRecord [] ''b'' ''y'')\<lparr>Type := ''UNKNOWN''\<rparr>),
                      RecordError (txtRecord [] ''down'' ''z'') (TransportError ''connection reset'')])"
proof -
  have root: "GetRootDomain (Client (stubProvider ''example.com'')) 0
      (OwnDomain (stubProvider ''example.com'')) =
    (Inr \<lparr>hn_StatusCode = 200, hn_ID = 7, hn_DomainName = ''example.com'',
          hn_Hostname = ''example.com'', hn_Node = []\<rparr>, 0)"
    by (simp add: stub_root stub_OwnDomain)
  show ?thesis
    using batch_partial_failure [OF root, of "''example.com.''"
        "[txtRecord [] ''a'' ''x'', (txtRecord [] ''b'' ''y'')\<lparr>Type := ''UNKNOWN''\<rparr>,
          txtRecord [] ''down'' ''z'', txtRecord [] ''c'' ''v'']"]
    by (simp add: batchResult_def upsertOne_def stub_upsert stub_OwnDomain zoneToFqdn_example
        case_prod_unfold toProvider_error toProvider_NodeName toNormalized_Name toProvider_Type
        knownTypes_def txtRecord_def provider_echo_def RelativeName_examples AbsoluteName_examples
        errors_Join_def)
qed

subsection \<open>The owning domain\<close>

text \<open>
  C1 (as stated, refuted): the claim has an unset owning domain default to the zone. With
  the owning domain empty and the zone \<^verbatim>\<open>example.com\<close>, root resolution is asked for the
  empty hostname, not for the zone, and a record \<^verbatim>\<open>sub\<close> is rebased against the empty
  string, which gives the node name \<^verbatim>\<open>sub.example.com\<close> where the zone as owning domain
  gives \<^verbatim>\<open>sub\<close>.
\<close>

theorem owning_domain_unset_counterexample:
  "requestsSent (Provider_GetRecords (recordingProvider (stubProvider [])) (0, []) ''example.com'') =
     [\<lparr>req_method = MethodGet, req_elems = [''dns'', ''getroot'', []],
       req_body = None, req_APIKey = ''token''\<rparr>] \<and>
   NodeName (fst (libdnsRecordToDnsRecord (txtRecord [] ''sub'' ''x'') ''example.com'' [])) =
     ''sub.example.com'' \<and>
   NodeName (fst (libdnsRecordToDnsRecord (txtRecord [] ''sub'' ''x'') ''example.com'' ''example.com'')) =
     ''sub''"
proof -
  have "GetRootDomain (Client (stubProvider [])) 0 [] =
      (Inl (APIError notFound), 0)"
    by (simp add: GetRootDomain_def stubProvider_def stubTransport_def)
  then show ?thesis
    by (simp add: recording_Provider_GetRecords stub_OwnDomain rootRequest_def toProvider_NodeName
        txtRecord_def RelativeName_examples AbsoluteName_examples)
      (simp add: stubProvider_def)
qed

text \<open>
  C1 (amended): every operation uses the configured owning-domain string as it is, empty
  or not, with no default: the first request of \<^verbatim>\<open>GetRecords\<close>, \<^verbatim>\<open>AppendRecords\<close>,
  \<^verbatim>\<open>SetRecords\<close> and \<^verbatim>\<open>DeleteRecords\<close> is the root resolution of that string;
  \<^verbatim>\<open>libdnsRecordToDnsRecord\<close> makes the node name relative to the owning domain it is
  given in both rebasing steps, the one of the absolute name and the one of a PTR record's
  value; and every record written by append or set is the translation of an input record
  with the configured string as that owning domain, so that its node name is relative to
  the configured string.
\<close>

theorem owning_domain_used_as_configured:
  "take 1 (requestsSent (Provider_GetRecords (recordingProvider p) (w, []) zone)) =
     [rootRequest p (OwnDomain p)] \<and>
   take 1 (requestsSent (AppendRecords (recordingProvider p) (w, []) zone records)) =
     [rootRequest p (OwnDomain p)] \<and>
   take 1 (requestsSent (SetRecords (recordingProvider p) (w, []) zone records)) =
     [rootRequest p (OwnDomain p)] \<and>
   take 1 (requestsSent (DeleteRecords (recordingProvider p) (w, []) zone records)) =
     [rootRequest p (OwnDomain p)] \<and>
   NodeName (fst (libdnsRecordToDnsRecord record domain ownDomain)) =
     (if Type record = ''PTR'' then RelativeName (Value record) ownDomain
      else RelativeName (AbsoluteName (if Name record = ''@'' then [] else Name record) domain)
             ownDomain) \<and>
   (\<forall>rq \<in> set (requestsSent (appendOrSetRecords (recordingProvider p) (w, []) zone records ign)).
      req_method rq = MethodPost \<longrightarrow>
      (\<exists>rec \<in> set records.
         req_body rq = Some (fst (libdnsRecordToDnsRecord rec (zoneToFqdn zone) (OwnDomain p))) \<and>
         map_option NodeName (req_body rq) =
           Some (if Type rec = ''PTR'' then RelativeName (Value rec) (OwnDomain p)
                 else RelativeName
                        (AbsoluteName (if Name rec = ''@'' then [] else Name rec) (zoneToFqdn zone))
                        (OwnDomain p))))"
proof (intro conjI ballI impI)
  show "take 1 (requestsSent (Provider_GetRecords (recordingProvider p) (w, []) zone)) =
      [rootRequest p (OwnDomain p)]"
    by (simp add: recording_Provider_GetRecords)
  show "take 1 (requestsSent (AppendRecords (recordingProvider p) (w, []) zone records)) =
      [rootRequest p (OwnDomain p)]"
    by (simp add: AppendRecords_def requestsSent_def recording_appendOrSetRecords)
  show "take 1 (requestsSent (SetRecords (recordingProvider p) (w, []) zone records)) =
      [rootRequest p (OwnDomain p)]"
    by (simp add: SetRecords_def requestsSent_def recording_appendOrSetRecords)
  show "take 1 (requestsSent (DeleteRecords (recordingProvider p) (w, []) zone records)) =
      [rootRequest p (OwnDomain p)]"
    by (simp add: recording_DeleteRecords)
  show "NodeName (fst (libdnsRecordToDnsRecord record domain ownDomain)) =
     (if Type record = ''PTR'' then RelativeName (Value record) ownDomain
      else RelativeName (AbsoluteName (if Name record = ''@'' then [] else Name record) domain)
             ownDomain)"
    by (simp add: libdnsRecordToDnsRecord_def Let_def)
next
  fix rq
  assume mem: "rq \<in> set (requestsSent (appendOrSetRecords (recordingProvider p) (w, []) zone records ign))"
    and post: "req_method rq = MethodPost"
  from post have notroot: "rq \<noteq> rootRequest p (OwnDomain p)"
    by (auto simp: rootRequest_def)
  obtain res w1 where root: "GetRootDomain (Client p) w (OwnDomain p) = (res, w1)"
    by (cases "GetRootDomain (Client p) w (OwnDomain p)")
  have "\<exists>rec \<in> set records.
      req_body rq = Some (fst (libdnsRecordToDnsRecord rec (zoneToFqdn zone) (OwnDomain p)))"
  proof (cases res)
    case (Inl e)
    with mem root notroot show ?thesis
      by (simp add: requestsSent_def recording_appendOrSetRecords)
  next
    case (Inr h)
    with mem root notroot
    have "rq \<in> (\<lambda>rec. upsertRequest p (hn_ID h) ign
                 (fst (libdnsRecordToDnsRecord rec (zoneToFqdn zone) (OwnDomain p)))) ` set records"
      by (auto simp: requestsSent_def recording_appendOrSetRecords)
    then show ?thesis
      by (auto simp: upsertRequest_def)
  qed
  then obtain rec where rec: "rec \<in> set records"
      "req_body rq = Some (fst (libdnsRecordToDnsRecord rec (zoneToFqdn zone) (OwnDomain p)))"
    by blast
  have "map_option NodeName (req_body rq) =
      Some (if Type rec = ''PTR'' then RelativeName (Value rec) (OwnDomain p)
            else RelativeName
                   (AbsoluteName (if Name rec = ''@'' then [] else Name rec) (zoneToFqdn zone))
                   (OwnDomain p))"
    by (simp add: rec(2) libdnsRecordToDnsRecord_def Let_def)
  with rec show "\<exists>rec \<in> set records.
      req_body rq = Some (fst (libdnsRecordToDnsRecord rec (zoneToFqdn zone) (OwnDomain p))) \<and>
      map_option NodeName (req_body rq) =
        Some (if Type rec = ''PTR'' then RelativeName (Value rec) (OwnDomain p)
              else RelativeName
                     (AbsoluteName (if Name rec = ''@'' then [] else Name rec) (zoneToFqdn zone))
                     (OwnDomain p))"
    by blast
qed

text \<open>
  On the stand-in provider, where configured and defaulted owning domain differ: with the
  owning domain unset, root resolution is asked for the empty hostname and the name
  \<^verbatim>\<open>sub\<close> of the zone \<^verbatim>\<open>example.com\<close> keeps its absolute name as node name; with the
  owning domain \<^verbatim>\<open>example.com\<close> and the zone \<^verbatim>\<open>com\<close>, the record \<^verbatim>\<open>sub.example\<close> is
  written with the node name \<^verbatim>\<open>sub\<close>.
\<close>

theorem owning_domain_used_as_configured_witness:
  "take 1 (requestsSent (Provider_GetRecords (recordingProvider (stubProvider []))
       (0, []) ''example.com.'')) =
     [\<lparr>req_method = MethodGet, req_elems = [''dns'', ''getroot'', []],
       req_body = None, req_APIKey = ''token''\<rparr>] \<and>
   NodeName (fst (libdnsRecordToDnsRecord (txtRecord [] ''sub'' ''x'') ''example.com'' [])) =
     ''sub.example.com'' \<and>
   map_option NodeName
     (req_body (last (requestsSent (appendOrSetRecords (recordingProvider (stubProvider ''example.com''))
       (0, []) ''com.'' [txtRecord [] ''sub.example'' ''x''] True)))) = Some ''sub''"
proof -
  let ?p = "stubProvider ''example.com''"
  let ?r = "txtRecord [] ''sub.example'' ''x''"
  let ?sent = "requestsSent (appendOrSetRecords (recordingProvider ?p) (0, []) ''com.'' [?r] True)"
  note inst = owning_domain_used_as_configured [of ?p 0 "''com.''" "[?r]" _ _ _ True]
  note unset = owning_domain_used_as_configured [of "stubProvider []" 0 "''example.com.''" "[]"
      "txtRecord [] ''sub'' ''x''" "''example.com''" "[]" True]
  have zone: "zoneToFqdn ''com.'' = ''com''"
    by (simp add: zoneToFqdn_def TrimRight_def trimRightByte.simps)
  have sent: "?sent = [rootRequest ?p ''example.com'',
      upsertRequest ?p 7 True (fst (libdnsRecordToDnsRecord ?r ''com'' ''example.com''))]"
    by (simp add: requestsSent_def recording_appendOrSetRecords stub_OwnDomain stub_root
        zone toProvider_error knownTypes_def txtRecord_def)
  have "last ?sent \<in> set ?sent" "req_method (last ?sent) = MethodPost"
    by (simp_all add: sent upsertRequest_def)
  with inst have "\<exists>rec \<in> set [?r]. 
      req_body (last ?sent) = Some (fst (libdnsRecordToDnsRecord rec (zoneToFqdn ''com.'') (OwnDomain ?p))) \<and>
      map_option NodeName (req_body (last ?sent)) =
        Some (if Type rec = ''PTR'' then RelativeName (Value rec) (OwnDomain ?p)
              else RelativeName
                     (AbsoluteName (if Name rec = ''@'' then [] else Name rec) (zoneToFqdn ''com.''))
                     (OwnDomain ?p))"
    by blast
  then have "map_option NodeName (req_body (last ?sent)) =
      Some (RelativeName (AbsoluteName ''sub.example'' ''com'') ''example.com'')"
    by (auto simp: zone stub_OwnDomain txtRecord_def)
  then have written: "map_option NodeName (req_body (last ?sent)) = Some ''sub''"
    by (simp add: AbsoluteName_def HasSuffix_def RelativeName_examples)
  from unset have "take 1 (requestsSent (Provider_GetRecords (recordingProvider (stubProvider []))
      (0, []) ''example.com.'')) = [rootRequest (stubProvider []) (OwnDomain (stubProvider []))]"
    by blast
  then have root: "take 1 (requestsSent (Provider_GetRecords (recordingProvider (stubProvider []))
      (0, []) ''example.com.'')) =
      [\<lparr>req_method = MethodGet, req_elems = [''dns'', ''getroot'', []],
        req_body = None, req_APIKey = ''token''\<rparr>]"
    by (simp add: rootRequest_def stub_OwnDomain) (simp add: stubProvider_def)
  from unset have "NodeName (fst (libdnsRecordToDnsRecord (txtRecord [] ''sub'' ''x'') ''example.com'' [])) =
      (if Type (txtRecord [] ''sub'' ''x'') = ''PTR'' then RelativeName (Value (txtRecord [] ''sub'' ''x'')) []
       else RelativeName (AbsoluteName (if Name (txtRecord [] ''sub'' ''x'') = ''@'' then []
              else Name (txtRecord [] ''sub'' ''x'')) ''example.com'') [])"
    by blast
  then have "NodeName (fst (libdnsRecordToDnsRecord (txtRecord [] ''sub'' ''x'') ''example.com'' [])) =
      ''sub.example.com''"
    by (simp add: txtRecord_def AbsoluteName_examples RelativeName_examples)
  with root written show ?thesis by simp
qed

subsection \<open>Scanning the identifier\<close>

lemma digit_range:
  assumes "c \<in> set decimalDigits"
  shows "48 \<le> (of_char c :: int)" and "(of_char c :: int) \<le> 57"
    and "48 \<le> (of_char c :: nat)" and "(of_char c :: nat) \<le> 57"
  using assms by (auto simp: decimalDigits_def)

lemma digitVal_digit:
  assumes "c \<in> set decimalDigits"
  shows "digitVal c = Some (of_char c - 48)" and "0 \<le> (of_char c :: int) - 48"
    and "(of_char c :: int) - 48 < 10" and "c \<noteq> CHR ''_''"
  using digit_range [OF assms] by (auto simp: digitVal_def)

lemma digit_no_sign:
  assumes "c \<in> set decimalDigits"
  shows "c \<noteq> CHR ''+''" and "c \<noteq> CHR ''-''"
  using digit_range [OF assms] by auto

lemma spaceRuneLen_digit:
  assumes "c \<in> set decimalDigits"
  shows "spaceRuneLen (c # cs) = 0"
  using digit_range [OF assms] by (simp add: spaceRuneLen_def Let_def)

lemma SkipSpace_no_space: "spaceRuneLen s = 0 \<Longrightarrow> SkipSpace s = s"
  by (subst SkipSpace.simps) simp

lemma acceptAll_all: "set s \<subseteq> set ok \<Longrightarrow> acceptAll ok buf s = (buf @ s, [])"
  by (induction s arbitrary: buf) auto

lemma foldl_decimal_mono:
  "set s \<subseteq> set decimalDigits \<Longrightarrow> 0 \<le> n \<Longrightarrow>
     (n::int) \<le> foldl (\<lambda>n c. 10 * n + (of_char c - 48)) n s"
proof (induction s arbitrary: n)
  case Nil
  show ?case by simp
next
  case (Cons c s)
  from Cons.prems have c: "c \<in> set decimalDigits" and s: "set s \<subseteq> set decimalDigits" by auto
  have "n \<le> 10 * n + (of_char c - 48)"
    using digitVal_digit(2) [OF c] Cons.prems(2) by linarith
  also have "\<dots> \<le> foldl (\<lambda>n c. 10 * n + (of_char c - 48)) (10 * n + (of_char c - 48)) s"
    using digitVal_digit(2) [OF c] Cons.prems(2) by (intro Cons.IH [OF s]) linarith
  finally show ?case by simp
qed

lemma parseUintLoop_decimal:
  "set s \<subseteq> set decimalDigits \<Longrightarrow> 0 \<le> n \<Longrightarrow>
   foldl (\<lambda>n c. 10 * n + (of_char c - 48)) n s \<le> maxUint64 \<Longrightarrow>
     parseUintLoop 10 n us s = Inr (foldl (\<lambda>n c. 10 * n + (of_char c - 48)) n s, us)"
proof (induction s arbitrary: n)
  case Nil
  show ?case by simp
next
  case (Cons c s)
  from Cons.prems have c: "c \<in> set decimalDigits" and s: "set s \<subseteq> set decimalDigits" by auto
  let ?n' = "10 * n + (of_char c - 48)"
  have n': "0 \<le> ?n'" "n \<le> ?n'"
    using digitVal_digit(2) [OF c] Cons.prems(2) by linarith+
  have le: "?n' \<le> maxUint64"
    using foldl_decimal_mono [OF s n'(1)] Cons.prems(3) by simp
  have "10 * n \<le> maxUint64"
    using le digitVal_digit(2) [OF c] by linarith
  then have cut: "\<not> maxUint64 div 10 + 1 \<le> n"
    by (simp add: maxUint64_def)
  have "parseUintLoop 10 ?n' us s = Inr (foldl (\<lambda>n c. 10 * n + (of_char c - 48)) ?n' s, us)"
    using Cons.prems(3) by (intro Cons.IH [OF s n'(1)]) simp
  then show ?case
    using digitVal_digit [OF c] cut le by (simp add: mult.commute)
qed

lemma Sscan_decimal:
  assumes ne: "s \<noteq> []" and digits: "set s \<subseteq> set decimalDigits"
    and lead: "hd s \<noteq> CHR ''0''" and small: "decimalValue s < 2 ^ 63"
  shows "Sscan s = word_of_int (decimalValue s)"
proof -
  obtain c cs where s: "s = c # cs" using ne by (cases s) auto
  have c: "c \<in> set decimalDigits" "c \<noteq> CHR ''0''" using digits lead s by auto
  have c_sign: "c \<noteq> CHR ''+''" "c \<noteq> CHR ''-''"
    using digit_no_sign [OF c(1)] by auto
  have skip: "SkipSpace s = s"
    using spaceRuneLen_digit [OF c(1)] s by (simp add: SkipSpace_no_space)
  have st1: "accept ''+-'' ([], s) = ([], s)"
    using c_sign s by (simp add: accept_def peek_def)
  have pre: "scanBasePrefix ([], s) = ((decimalDigits @ ''_'', False), ([], s))"
    using c(2) s by (simp add: scanBasePrefix_def peek_def)
  have tok: "scanNumber (decimalDigits @ ''_'') False ([], s) = Inr s"
    using digits c(1) s acceptAll_all [of s "decimalDigits @ ''_''" "[]"]
    by (simp add: scanNumber_def peek_def subset_insertI2)
  have "decimalValue s \<le> maxUint64"
    using small by (simp add: maxUint64_def)
  then have loop: "parseUintLoop 10 0 False s = Inr (decimalValue s, False)"
    using parseUintLoop_decimal [OF digits, of 0 False] by (simp add: decimalValue_def)
  have "ParseUint s = Inr (decimalValue s)"
    using s c(2) loop by (simp add: ParseUint_def)
  then have "ParseInt s = Inr (decimalValue s)"
    using s c_sign small by (simp add: ParseInt_def)
  then show ?thesis
    using skip s st1 pre tok by (simp add: Sscan_def scanInt_def)
qed

lemma Sscan_empty: "Sscan [] = 0"
  by (simp add: Sscan_def scanInt_def SkipSpace_no_space spaceRuneLen_def)

lemma Sscan_not_a_number:
  assumes "spaceRuneLen s = 0" and "s \<noteq> []" and "hd s \<notin> set ''+-_0123456789''"
  shows "Sscan s = 0"
proof -
  obtain c cs where s: "s = c # cs" using assms(2) by (cases s) auto
  have st1: "accept ''+-'' ([], s) = ([], s)"
    using assms(3) s by (simp add: accept_def peek_def)
  have pre: "scanBasePrefix ([], s) = ((decimalDigits @ ''_'', False), ([], s))"
    using assms(3) s by (simp add: scanBasePrefix_def peek_def)
  have "scanNumber (decimalDigits @ ''_'') False ([], s) = Inl ExpectedInteger"
    using assms(3) s by (simp add: scanNumber_def peek_def decimalDigits_def)
  then show ?thesis
    using assms(1) s st1 pre by (simp add: Sscan_def scanInt_def SkipSpace_no_space)
qed

lemma Sscan_examples:
  "Sscan ''0'' = 0" "Sscan ''12abc'' = 12" "Sscan ''010'' = 8" "Sscan ''123'' = 123"
  by (simp_all add: Sscan_def scanInt_def SkipSpace_no_space spaceRuneLen_def accept_def peek_def
      scanBasePrefix_def scanNumber_def ParseInt_def ParseUint_def hasBasePrefix_def digitVal_def
      maxUint64_def decimalDigits_def octalDigits_def)

lemma decimalValue_nonneg: "set s \<subseteq> set decimalDigits \<Longrightarrow> 0 \<le> decimalValue s"
  using foldl_decimal_mono [of s 0] by (simp add: decimalValue_def)

lemma sint_word_of_int_small: "0 \<le> v \<Longrightarrow> v < 2 ^ 63 \<Longrightarrow> sint (word_of_int v :: 64 word) = v"
  by (simp add: sint_sbintrunc' signed_take_bit_int_eq_self)

text \<open>
  C8 (as stated, refuted): the claim gives 0 for every id that is not a numeric string and
  the number itself for every decimal numeral. \<^verbatim>\<open>fmt.Sscan\<close> stops at the first byte
  that cannot continue the number and keeps what it read, so \<^verbatim>\<open>"12abc"\<close> gives 12; and
  a leading zero makes the numeral octal, so \<^verbatim>\<open>"010"\<close> gives 8.
\<close>

theorem id_parse_counterexample:
  "dns_ID (fst (libdnsRecordToDnsRecord (txtRecord ''12abc'' ''a'' ''x'') ''example.com'' ''example.com'')) = 12 \<and>
   dns_ID (fst (libdnsRecordToDnsRecord (txtRecord ''010'' ''a'' ''x'') ''example.com'' ''example.com'')) = 8"
  by (simp add: toProvider_ID txtRecord_def Sscan_examples)

text \<open>
  C8 (amended): for every normalized record whose id string is empty, or does not begin
  with a white-space character (one of the Unicode white-space runes that the scan skips,
  in UTF-8) and has a first byte that is neither a decimal digit, a sign nor an
  underscore, \<^verbatim>\<open>libdnsRecordToDnsRecord\<close> produces the numeric identifier 0, and
  \<^verbatim>\<open>AddOrUpdateRecord\<close> posts that record to the collection path, whether the record id
  is to be ignored or not (create-new semantics); for every id string that is a decimal
  numeral without a leading zero (or is \<^verbatim>\<open>"0"\<close>) and denotes a number below
  \<open>2 ^ 63\<close>, it produces that number.
\<close>

theorem id_parse:
  "(ID r = [] \<or> (spaceRuneLen (ID r) = 0 \<and> hd (ID r) \<notin> set ''+-_0123456789'') \<longrightarrow>
      dns_ID (fst (libdnsRecordToDnsRecord r domain own)) = 0 \<and>
      requestsSent (AddOrUpdateRecord (Client (recordingProvider p)) (w, []) hostnameId
          (fst (libdnsRecordToDnsRecord r domain own)) ignoreRecordId) =
        [\<lparr>req_method = MethodPost, req_elems = [''dns'', Sprint hostnameId, ''record''],
          req_body = Some (fst (libdnsRecordToDnsRecord r domain own)),
          req_APIKey = APIToken (Client p)\<rparr>]) \<and>
   (ID r \<noteq> [] \<and> set (ID r) \<subseteq> set decimalDigits \<and> (hd (ID r) \<noteq> CHR ''0'' \<or> ID r = ''0'') \<and>
    decimalValue (ID r) < 2 ^ 63 \<longrightarrow>
      dns_ID (fst (libdnsRecordToDnsRecord r domain own)) = word_of_int (decimalValue (ID r)) \<and>
      sint (dns_ID (fst (libdnsRecordToDnsRecord r domain own))) = decimalValue (ID r))"
proof (intro conjI impI)
  assume "ID r = [] \<or> (spaceRuneLen (ID r) = 0 \<and> hd (ID r) \<notin> set ''+-_0123456789'')"
  then have "Sscan (ID r) = 0"
    using Sscan_empty Sscan_not_a_number [of "ID r"] by (cases "ID r = []") auto
  then show zero: "dns_ID (fst (libdnsRecordToDnsRecord r domain own)) = 0"
    by (simp add: toProvider_ID)
  show "requestsSent (AddOrUpdateRecord (Client (recordingProvider p)) (w, []) hostnameId
          (fst (libdnsRecordToDnsRecord r domain own)) ignoreRecordId) =
        [\<lparr>req_method = MethodPost, req_elems = [''dns'', Sprint hostnameId, ''record''],
          req_body = Some (fst (libdnsRecordToDnsRecord r domain own)),
          req_APIKey = APIToken (Client p)\<rparr>]"
    by (simp add: recording_AddOrUpdateRecord requestsSent_def upsertRequest_def zero
        split: prod.splits)
next
  assume a: "ID r \<noteq> [] \<and> set (ID r) \<subseteq> set decimalDigits \<and>
    (hd (ID r) \<noteq> CHR ''0'' \<or> ID r = ''0'') \<and> decimalValue (ID r) < 2 ^ 63"
  have scan: "Sscan (ID r) = word_of_int (decimalValue (ID r))"
  proof (cases "ID r = ''0''")
    case True
    then show ?thesis by (simp add: Sscan_examples decimalValue_def)
  next
    case False
    with a show ?thesis by (intro Sscan_decimal) auto
  qed
  then show "dns_ID (fst (libdnsRecordToDnsRecord r domain own)) = word_of_int (decimalValue (ID r))"
    by (simp add: toProvider_ID)
  show "sint (dns_ID (fst (libdnsRecordToDnsRecord r domain own))) = decimalValue (ID r)"
    using a scan decimalValue_nonneg [of "ID r"]
    by (simp add: toProvider_ID sint_word_of_int_small)
qed

text \<open>
  The ids \<^verbatim>\<open>"abc"\<close> and \<^verbatim>\<open>"123"\<close>; the record with the id \<^verbatim>\<open>"abc"\<close> is posted to
  \<^verbatim>\<open>dns/7/record\<close> by a set, which does not ignore the record id.
\<close>

theorem id_parse_witness:
  "dns_ID (fst (libdnsRecordToDnsRecord (txtRecord ''abc'' ''a'' ''x'') ''example.com'' ''example.com'')) = 0 \<and>
   map req_elems (requestsSent (AddOrUpdateRecord (Client (recordingProvider (stubProvider ''example.com'')))
       (0, []) 7 (fst (libdnsRecordToDnsRecord (txtRecord ''abc'' ''a'' ''x'') ''example.com'' ''example.com''))
       False)) = [[''dns'', ''7'', ''record'']] \<and>
   dns_ID (fst (libdnsRecordToDnsRecord (txtRecord ''123'' ''a'' ''x'') ''example.com'' ''example.com'')) = 123"
  using id_parse [of "txtRecord ''abc'' ''a'' ''x''" "''example.com''" "''example.com''"
      "stubProvider ''example.com''" 0 7 False]
    id_parse [of "txtRecord ''123'' ''a'' ''x''" "''example.com''" "''example.com''"]
  by (simp add: txtRecord_def spaceRuneLen_def decimalDigits_def decimalValue_def Sprint_7)

subsection \<open>Rounding to float64\<close>

lemma bitLen_bounds:
  "0 < n \<Longrightarrow> 1 \<le> bitLen n \<and> 2 ^ nat (bitLen n - 1) \<le> n \<and> n < 2 ^ nat (bitLen n)"
proof (induction n rule: bitLen.induct)
  case (1 n)
  show ?case
  proof (cases "n = 1")
    case True
    then show ?thesis
      by (simp add: bitLen.simps [of 1] bitLen.simps [of 0])
  next
    case False
    with "1.prems" have half: "0 < n div 2" by simp
    with "1.IH" "1.prems" have ih: "1 \<le> bitLen (n div 2)"
        "2 ^ nat (bitLen (n div 2) - 1) \<le> n div 2" "n div 2 < 2 ^ nat (bitLen (n div 2))"
      by simp_all
    have eq: "bitLen n = 1 + bitLen (n div 2)"
      using "1.prems" by (subst bitLen.simps) simp
    have suc: "nat (bitLen (n div 2)) = Suc (nat (bitLen (n div 2) - 1))"
      using ih(1) by simp
    have lower: "2 ^ nat (bitLen (n div 2)) \<le> n"
    proof -
      have "(2::int) ^ nat (bitLen (n div 2)) = 2 * 2 ^ nat (bitLen (n div 2) - 1)"
        by (subst suc) simp
      also have "\<dots> \<le> 2 * (n div 2)" using ih(2) by simp
      also have "\<dots> \<le> n" by simp
      finally show ?thesis .
    qed
    have upper: "n < 2 * 2 ^ nat (bitLen (n div 2))"
    proof -
      have "n div 2 + 1 \<le> 2 ^ nat (bitLen (n div 2))" using ih(3) by simp
      then have "2 * (n div 2) + 2 \<le> 2 * 2 ^ nat (bitLen (n div 2))" by simp
      moreover have "n < 2 * (n div 2) + 2" by presburger
      ultimately show ?thesis by linarith
    qed
    have "nat (1 + bitLen (n div 2)) = Suc (nat (bitLen (n div 2)))"
      using ih(1) by simp
    with lower upper ih(1) show ?thesis
      by (simp add: eq)
  qed
qed

lemma ilog2_le:
  assumes "0 < x"
  shows "2 powi (ilog2 x) \<le> x"
proof (cases "1 \<le> x")
  case True
  then have pos: "0 < \<lfloor>x\<rfloor>" by simp
  have "2 powi (ilog2 x) = (2::rat) ^ nat (bitLen \<lfloor>x\<rfloor> - 1)"
    using True bitLen_bounds [OF pos] by (simp add: ilog2_def power_int_def)
  also have "\<dots> = of_int (2 ^ nat (bitLen \<lfloor>x\<rfloor> - 1))" by simp
  also have "\<dots> \<le> of_int \<lfloor>x\<rfloor>"
    using bitLen_bounds [OF pos] by (intro of_int_le_iff [THEN iffD2]) simp
  also have "\<dots> \<le> x" by simp
  finally show ?thesis .
next
  case False
  with assms have inv: "1 < 1 / x" by simp
  define m where "m = \<lceil>1 / x\<rceil> - 1"
  have mpos: "0 < m"
    using inv by (simp add: m_def)
  define k where "k = bitLen m"
  have k: "1 \<le> k" "m < 2 ^ nat k"
    using bitLen_bounds [OF mpos] by (simp_all add: k_def)
  have "1 / x \<le> of_int \<lceil>1 / x\<rceil>" by simp
  also have "\<dots> = of_int (m + 1)" by (simp add: m_def)
  also have "\<dots> \<le> of_int (2 ^ nat k)"
    using k(2) by (intro of_int_le_iff [THEN iffD2]) simp
  also have "\<dots> = (2::rat) ^ nat k" by simp
  finally have "1 / x \<le> 2 ^ nat k" .
  then have "1 \<le> 2 ^ nat k * x"
    using assms by (simp add: field_simps)
  then have "1 / 2 ^ nat k \<le> x"
    by (simp add: field_simps)
  moreover have "2 powi (ilog2 x) = 1 / (2::rat) ^ nat k"
    using False k(1) by (simp add: ilog2_def m_def k_def power_int_def field_simps)
  ultimately show ?thesis by simp
qed

lemma ilog2_less:
  assumes "0 < x" and "x < 2 powi k"
  shows "ilog2 x < k"
proof (rule ccontr)
  assume "\<not> ilog2 x < k"
  then have "k \<le> ilog2 x" by simp
  then have "(2::rat) powi k \<le> 2 powi (ilog2 x)"
    by (intro power_int_increasing) simp_all
  with ilog2_le [OF assms(1)] assms(2) show False by simp
qed

lemma ilog2_nonneg: "1 \<le> x \<Longrightarrow> 0 \<le> ilog2 x"
proof -
  assume x: "1 \<le> x"
  then have "0 < \<lfloor>x\<rfloor>" by simp
  from bitLen_bounds [OF this] x show ?thesis by (simp add: ilog2_def)
qed

lemma roundHalfEven_error: "\<bar>of_int (roundHalfEven y) - y\<bar> \<le> 1 / 2"
proof -
  have "of_int \<lfloor>y\<rfloor> \<le> y" "y < of_int \<lfloor>y\<rfloor> + 1" by linarith+
  then show ?thesis
    by (auto simp: roundHalfEven_def Let_def abs_le_iff)
qed

lemma roundHalfEven_of_int: "roundHalfEven (of_int m) = m"
  by (simp add: roundHalfEven_def)

lemma float64_error:
  assumes "\<bar>x\<bar> < 2 powi k" and "- 1021 \<le> k"
  shows "\<bar>float64 x - x\<bar> \<le> 2 powi (k - 54)"
proof (cases "x = 0")
  case True
  then show ?thesis by (simp add: float64_def)
next
  case False
  define e where "e = max (ilog2 \<bar>x\<bar>) (- 1022)"
  define u where "u = (2::rat) powi (e - 52)"
  have upos: "0 < u" by (simp add: u_def)
  have "ilog2 \<bar>x\<bar> < k" using False assms(1) by (intro ilog2_less) simp_all
  with assms(2) have "e \<le> k - 1" by (simp add: e_def)
  then have "u \<le> 2 powi (k - 53)"
    unfolding u_def by (intro power_int_increasing) simp_all
  then have half: "u / 2 \<le> 2 powi (k - 54)"
  proof -
    have "(2::rat) powi (k - 53) = 2 powi (k - 54) * 2"
      using power_int_add [of "2::rat" "k - 54" 1] by simp
    with \<open>u \<le> 2 powi (k - 53)\<close> show ?thesis by simp
  qed
  have fl: "float64 x = of_int (roundHalfEven (x / u)) * u"
    using False by (simp add: float64_def Let_def e_def u_def)
  have "float64 x - x = (of_int (roundHalfEven (x / u)) - x / u) * u"
    using upos by (simp add: fl field_simps)
  then have "\<bar>float64 x - x\<bar> = \<bar>of_int (roundHalfEven (x / u)) - x / u\<bar> * u"
    using upos by (simp add: abs_mult)
  also have "\<dots> \<le> 1 / 2 * u"
    using roundHalfEven_error [of "x / u"] upos by (intro mult_right_mono) simp_all
  also have "\<dots> \<le> 2 powi (k - 54)" using half by simp
  finally show ?thesis .
qed

lemma float64_of_int:
  assumes "\<bar>n\<bar> < 2 ^ 53"
  shows "float64 (of_int n) = of_int n"
proof (cases "n = 0")
  case True
  then show ?thesis by (simp add: float64_def)
next
  case False
  let ?x = "of_int n :: rat"
  have abs_x: "\<bar>?x\<bar> = of_int \<bar>n\<bar>" by simp
  have "1 \<le> \<bar>n\<bar>" using False by simp
  then have one: "1 \<le> \<bar>?x\<bar>"
    unfolding abs_x by (simp only: of_int_1_le_iff)
  have "(of_int \<bar>n\<bar> :: rat) < of_int (2 ^ 53)"
    using assms by (simp only: of_int_less_iff)
  then have "\<bar>?x\<bar> < 2 powi 53"
    unfolding abs_x by simp
  then have "ilog2 \<bar>?x\<bar> < 53"
    using one by (intro ilog2_less) simp_all
  moreover have "0 \<le> ilog2 \<bar>?x\<bar>" using one by (rule ilog2_nonneg)
  ultimately have "0 \<le> 52 - ilog2 \<bar>?x\<bar>" by simp
  then obtain j where j: "52 - ilog2 \<bar>?x\<bar> = int j"
    by (rule nonneg_int_cases)
  have e: "max (ilog2 \<bar>?x\<bar>) (- 1022) = ilog2 \<bar>?x\<bar>"
    using \<open>0 \<le> ilog2 \<bar>?x\<bar>\<close> by simp
  have u: "(2::rat) powi (ilog2 \<bar>?x\<bar> - 52) = 1 / 2 ^ j"
  proof -
    have "ilog2 \<bar>?x\<bar> - 52 = - int j" using j by simp
    then show ?thesis by (simp add: power_int_minus_divide)
  qed
  have "?x / (1 / 2 ^ j) = of_int (n * 2 ^ j)" by simp
  then have "roundHalfEven (?x / (1 / 2 ^ j)) = n * 2 ^ j"
    by (simp only: roundHalfEven_of_int)
  then show ?thesis
    using False by (simp add: float64_def Let_def e u del: of_int_abs)
qed

subsection \<open>A duration in seconds\<close>

lemma Second_split:
  fixes D :: int
  shows "0 \<le> D \<Longrightarrow> D sdiv Second = D div 1000000000 \<and> D smod Second = D mod 1000000000"
    and "D < 0 \<Longrightarrow> D sdiv Second = - ((- D) div 1000000000) \<and>
           D smod Second = - ((- D) mod 1000000000)"
  by (simp_all add: signed_divide_int_def signed_modulo_int_def Second_def sgn_if)

lemma Second_parts:
  fixes D :: int
  defines "sec \<equiv> D sdiv Second" and "nsec \<equiv> D smod Second"
  shows "D = sec * 1000000000 + nsec" and "\<bar>nsec\<bar> < 1000000000"
    and "0 \<le> D \<Longrightarrow> 0 \<le> sec \<and> 0 \<le> nsec" and "D \<le> 0 \<Longrightarrow> sec \<le> 0 \<and> nsec \<le> 0"
    and "\<bar>sec\<bar> * 1000000000 \<le> \<bar>D\<bar>"
proof -
  show "D = sec * 1000000000 + nsec"
    using sdiv_mult_smod_eq [of D Second] by (simp add: sec_def nsec_def Second_def)
  show "\<bar>nsec\<bar> < 1000000000"
    using Second_split [of D] by (cases "0 \<le> D") (simp_all add: nsec_def)
  show "0 \<le> D \<Longrightarrow> 0 \<le> sec \<and> 0 \<le> nsec"
    using Second_split(1) [of D] by (simp add: sec_def nsec_def pos_imp_zdiv_nonneg_iff)
  show "D \<le> 0 \<Longrightarrow> sec \<le> 0 \<and> nsec \<le> 0"
    using Second_split [of D] by (cases "D = 0") (simp_all add: sec_def nsec_def pos_imp_zdiv_nonneg_iff)
  show "\<bar>sec\<bar> * 1000000000 \<le> \<bar>D\<bar>"
  proof (cases "0 \<le> D")
    case True
    then show ?thesis using Second_split(1) [of D] by (simp add: sec_def pos_imp_zdiv_nonneg_iff)
  next
    case False
    then have "0 \<le> (- D) div 1000000000" by (simp add: pos_imp_zdiv_nonneg_iff)
    with False show ?thesis using Second_split(2) [of D] by (simp add: sec_def)
  qed
qed

lemma sint_64_bounds: "\<bar>sint (d :: 64 word)\<bar> \<le> 2 ^ 63"
  using sint_ge [of d] sint_lt [of d] by simp

lemma Seconds_unfold:
  fixes d :: "64 word"
  defines "sec \<equiv> sint d sdiv Second" and "nsec \<equiv> sint d smod Second"
  shows "Seconds d = float64 (of_int sec + float64 (of_int nsec / 1000000000))"
proof -
  have "\<bar>sec\<bar> * 1000000000 \<le> 2 ^ 63"
    using Second_parts(5) [of "sint d"] sint_64_bounds [of d] by (simp add: sec_def)
  then have "\<bar>sec\<bar> < 2 ^ 53" by simp
  then have 1: "float64 (of_int sec) = of_int sec" by (rule float64_of_int)
  have "\<bar>nsec\<bar> < 2 ^ 53"
    using Second_parts(2) [of "sint d"] by (simp add: nsec_def)
  then have 2: "float64 (of_int nsec) = of_int nsec" by (rule float64_of_int)
  show ?thesis
    by (simp add: Seconds_def Let_def 1 [unfolded sec_def] 2 [unfolded nsec_def] sec_def nsec_def)
qed

lemma Seconds_whole:
  assumes "sint d smod Second = 0"
  shows "Seconds d = of_int (sint d sdiv Second)"
proof -
  have "\<bar>sint d sdiv Second\<bar> * 1000000000 \<le> 2 ^ 63"
    using Second_parts(5) [of "sint d"] sint_64_bounds [of d] by simp
  then have "\<bar>sint d sdiv Second\<bar> < 2 ^ 53" by simp
  then have "float64 (of_int (sint d sdiv Second)) = of_int (sint d sdiv Second)"
    by (rule float64_of_int)
  then show ?thesis
    using assms by (simp add: Seconds_unfold float64_def)
qed

lemma Seconds_error:
  fixes d :: "64 word"
  assumes "\<bar>sint d\<bar> < 2 ^ k * 1000000000"
  shows "\<bar>Seconds d - of_int (sint d) / 1000000000\<bar> \<le> 2 powi (int k - 54) + 2 powi (- 54)"
proof -
  define sec where "sec = sint d sdiv Second"
  define nsec where "nsec = sint d smod Second"
  define f where "f = (of_int nsec / 1000000000 :: rat)"
  define q where "q = float64 f"
  note parts = Second_parts [of "sint d", folded sec_def nsec_def]
  have exact: "of_int (sint d) / 1000000000 = of_int sec + f"
    unfolding f_def by (subst parts(1)) (simp add: field_simps)
  have "\<bar>nsec\<bar> \<le> 999999999" using parts(2) by simp
  then have "(of_int \<bar>nsec\<bar> :: rat) \<le> of_int 999999999"
    by (simp only: of_int_le_iff)
  then have fb: "\<bar>f\<bar> \<le> 999999999 / 1000000000"
    by (simp add: f_def)
  then have "\<bar>f\<bar> < 2 powi 0" by simp
  then have "\<bar>float64 f - f\<bar> \<le> 2 powi (0 - 54)"
    by (rule float64_error) simp
  then have qerr: "\<bar>q - f\<bar> \<le> 2 powi (- 54)"
    by (simp add: q_def)
  have small: "(2::rat) powi (- 54) < 1 / 1000000000" by simp
  have qb: "\<bar>q\<bar> < 1"
    using qerr fb small by linarith
  have "\<bar>sec\<bar> * 1000000000 < 2 ^ k * 1000000000"
    using parts(5) assms(1) by linarith
  then have "\<bar>sec\<bar> + 1 \<le> 2 ^ k" by simp
  then have "(of_int (\<bar>sec\<bar> + 1) :: rat) \<le> of_int (2 ^ k)"
    by (simp only: of_int_le_iff)
  then have secb: "\<bar>of_int sec :: rat\<bar> + 1 \<le> 2 ^ k" by simp
  have "\<bar>of_int sec + q\<bar> < 2 ^ k"
    using secb qb by linarith
  then have "\<bar>of_int sec + q\<bar> < 2 powi (int k)" by simp
  then have "\<bar>float64 (of_int sec + q) - (of_int sec + q)\<bar> \<le> 2 powi (int k - 54)"
    by (rule float64_error) simp
  moreover have "Seconds d = float64 (of_int sec + q)"
    by (simp add: Seconds_unfold sec_def nsec_def q_def f_def)
  ultimately have "\<bar>Seconds d - (of_int sec + q)\<bar> \<le> 2 powi (int k - 54)" by simp
  with qerr show ?thesis
    unfolding exact by linarith
qed

lemma word64_of_int_inj:
  assumes "(word_of_int a :: 64 word) = word_of_int b" and "\<bar>a - b\<bar> < 2 ^ 64"
  shows "a = b"
proof -
  from assms(1) have "a mod 2 ^ 64 = b mod 2 ^ 64"
    by (simp add: word_of_int_eq_iff take_bit_eq_mod)
  then have "(2 ^ 64 :: int) dvd a - b"
    by (simp add: mod_eq_dvd_iff)
  then obtain c where c: "a - b = 2 ^ 64 * c" by (auto simp: dvd_def)
  with assms(2) have "\<bar>c\<bar> < 1" by (simp add: abs_mult)
  then have "c = 0" by simp
  with c show ?thesis by simp
qed

lemma truncation_below_2_24:
  fixes d :: "64 word"
  assumes "\<bar>sint d\<bar> < 2 ^ 24 * Second"
  shows "truncToInt (Seconds d) = word_of_int (sint d sdiv Second)"
proof -
  define sec where "sec = sint d sdiv Second"
  define nsec where "nsec = sint d smod Second"
  define y where "y = Seconds d"
  note parts = Second_parts [of "sint d", folded sec_def nsec_def]
  have exact: "of_int (sint d) / 1000000000 = of_int sec + (of_int nsec / 1000000000 :: rat)"
    by (subst parts(1)) (simp add: field_simps)
  have "\<bar>y - of_int (sint d) / 1000000000\<bar> \<le> 2 powi (int 24 - 54) + 2 powi (- 54)"
    unfolding y_def using assms by (intro Seconds_error) (simp add: Second_def)
  then have err: "\<bar>y - (of_int sec + of_int nsec / 1000000000)\<bar> < 1 / 1000000000"
    unfolding exact by simp
  consider "nsec = 0" | "0 < nsec" | "nsec < 0" by linarith
  then have "(if 0 \<le> y then \<lfloor>y\<rfloor> else \<lceil>y\<rceil>) = sec"
  proof cases
    case 1
    then have "y = of_int sec"
      unfolding y_def sec_def using Seconds_whole [of d] by (simp add: nsec_def)
    then show ?thesis by simp
  next
    case 2
    then have "\<not> sint d \<le> 0" using parts(4) by auto
    then have sec0: "0 \<le> sec" using parts(3) by simp
    have "1 \<le> nsec" "nsec \<le> 999999999" using 2 parts(2) by simp_all
    then have "(of_int 1 :: rat) \<le> of_int nsec" "(of_int nsec :: rat) \<le> of_int 999999999"
      by (simp_all only: of_int_le_iff)
    then have "1 / 1000000000 \<le> (of_int nsec / 1000000000 :: rat)"
        "(of_int nsec / 1000000000 :: rat) \<le> 999999999 / 1000000000"
      by simp_all
    with err have y: "of_int sec < y" "y < of_int sec + 1" by linarith+
    have "(0::rat) \<le> of_int sec" using sec0 by simp
    with y have "0 \<le> y" by linarith
    moreover have "\<lfloor>y\<rfloor> = sec" using y by (intro floor_unique) simp_all
    ultimately show ?thesis by simp
  next
    case 3
    then have "\<not> 0 \<le> sint d" using parts(3) by auto
    then have sec0: "sec \<le> 0" using parts(4) by simp
    have "nsec \<le> - 1" "- 999999999 \<le> nsec" using 3 parts(2) by simp_all
    then have "(of_int nsec :: rat) \<le> of_int (- 1)" "(of_int (- 999999999) :: rat) \<le> of_int nsec"
      by (simp_all only: of_int_le_iff)
    then have "(of_int nsec / 1000000000 :: rat) \<le> - 1 / 1000000000"
        "- 999999999 / 1000000000 \<le> (of_int nsec / 1000000000 :: rat)"
      by simp_all
    with err have y: "of_int sec - 1 < y" "y < of_int sec" by linarith+
    have "(of_int sec :: rat) \<le> 0" using sec0 by simp
    with y have "\<not> 0 \<le> y" by linarith
    moreover have "\<lceil>y\<rceil> = sec" using y by (intro ceiling_unique) simp_all
    ultimately show ?thesis by simp
  qed
  then show ?thesis
    unfolding truncToInt_def y_def sec_def by (simp only:)
qed

lemma TTL_roundtrip_iff:
  fixes d :: "64 word"
  shows "truncToInt (Seconds d) * word_of_int Second = d \<longleftrightarrow> sint d smod Second = 0"
proof
  assume whole: "sint d smod Second = 0"
  have "sint d sdiv Second * Second = sint d"
    using sdiv_mult_smod_eq [of "sint d" Second] whole by simp
  then have "word_of_int (sint d sdiv Second) * word_of_int Second = (word_of_int (sint d) :: 64 word)"
    by (simp only: of_int_mult [symmetric])
  then show "truncToInt (Seconds d) * word_of_int Second = d"
    by (simp add: Seconds_whole [OF whole] truncToInt_def)
next
  assume rt: "truncToInt (Seconds d) * word_of_int Second = d"
  define y where "y = Seconds d"
  define t where "t = (if 0 \<le> y then \<lfloor>y\<rfloor> else \<lceil>y\<rceil>)"
  have "\<bar>sint d\<bar> < 2 ^ 34 * 1000000000"
    using sint_64_bounds [of d] by simp
  then have "\<bar>y - of_int (sint d) / 1000000000\<bar> \<le> 2 powi (int 34 - 54) + 2 powi (- 54)"
    unfolding y_def by (rule Seconds_error)
  then have err: "\<bar>y - of_int (sint d) / 1000000000\<bar> < 1" by simp
  have "\<bar>of_int t - y\<bar> < 1"
    unfolding t_def by (simp split: if_splits) linarith
  with err have "\<bar>of_int t - of_int (sint d) / 1000000000 :: rat\<bar> < 2" by linarith
  then have "\<bar>of_int t * 1000000000 - of_int (sint d) :: rat\<bar> < 2000000000"
    by (simp add: field_simps abs_less_iff)
  then have "(of_int \<bar>t * 1000000000 - sint d\<bar> :: rat) < of_int 2000000000" by simp
  then have close: "\<bar>t * 1000000000 - sint d\<bar> < 2000000000"
    by (simp only: of_int_less_iff)
  have "(word_of_int (t * Second) :: 64 word) = word_of_int (sint d)"
    using rt unfolding truncToInt_def t_def y_def by simp
  then have "t * Second = sint d"
    using close by (intro word64_of_int_inj) (simp_all add: Second_def)
  then have "sint d smod Second = (t * Second) smod Second" by simp
  also have "\<dots> = 0"
    by (simp add: signed_modulo_int_def Second_def abs_mult)
  finally show "sint d smod Second = 0" .
qed

lemma Seconds_rounds_up: "truncToInt (Seconds 16777216999999999) = 16777217"
  by code_simp

subsection \<open>The TTL\<close>

text \<open>
  C10 (as stated, refuted): the claim has the write direction truncate the duration to
  whole seconds. \<^verbatim>\<open>Duration.Seconds\<close> is a \<^verbatim>\<open>float64\<close>; for 16777216.999999999 s, one
  nanosecond short of \<open>2 ^ 24 + 1\<close> seconds, the sum of seconds and fraction rounds up to
  the next whole number, and the TTL written is 16777217 where truncation gives 16777216.
\<close>

theorem ttl_conversion_counterexample:
  "dns_TTL (fst (libdnsRecordToDnsRecord ((txtRecord [] ''a'' ''x'')\<lparr>TTL := 16777216999999999\<rparr>)
       ''example.com'' ''example.com'')) = 16777217 \<and>
   sint (16777216999999999 :: 64 word) sdiv Second = 16777216"
  by (simp add: toProvider_TTL txtRecord_def Seconds_rounds_up signed_divide_int_def Second_def)

text \<open>
  C10 (amended): \<^verbatim>\<open>libdnsRecordToDnsRecord\<close> converts the TTL duration to whole seconds
  through \<^verbatim>\<open>float64\<close>; for every duration of magnitude below \<open>2 ^ 24\<close> seconds this is
  truncation toward zero, so that a sub-second part is discarded. \<^verbatim>\<open>dnsRecordToLibdnsRecord\<close>
  converts the provider's whole seconds back to a duration by multiplying with one
  second. For every duration, the TTL comes back unchanged if and only if the duration
  is a whole number of seconds.
\<close>

theorem ttl_conversion:
  "(\<bar>sint (TTL r)\<bar> < 2 ^ 24 * Second \<longrightarrow>
      dns_TTL (fst (libdnsRecordToDnsRecord r domain own)) = word_of_int (sint (TTL r) sdiv Second)) \<and>
   TTL (dnsRecordToLibdnsRecord p zone) = dns_TTL p * word_of_int Second \<and>
   (TTL (dnsRecordToLibdnsRecord (fst (libdnsRecordToDnsRecord r domain own)) zone) = TTL r \<longleftrightarrow>
      sint (TTL r) smod Second = 0)"
  by (simp add: toProvider_TTL toNormalized_TTL truncation_below_2_24 TTL_roundtrip_iff)

text \<open>
  One and a half seconds are written as 1 and do not come back; 120 seconds do.
\<close>

theorem ttl_conversion_witness:
  "dns_TTL (fst (libdnsRecordToDnsRecord ((txtRecord [] ''a'' ''x'')\<lparr>TTL := 1500000000\<rparr>)
       ''example.com'' ''example.com'')) = 1 \<and>
   TTL (dnsRecordToLibdnsRecord (fst (libdnsRecordToDnsRecord ((txtRecord [] ''a'' ''x'')\<lparr>TTL := 1500000000\<rparr>)
       ''example.com'' ''example.com'')) ''example.com'') \<noteq> 1500000000 \<and>
   TTL (dnsRecordToLibdnsRecord (fst (libdnsRecordToDnsRecord (txtRecord [] ''a'' ''x'')
       ''example.com'' ''example.com'')) ''example.com'') = 120000000000"
  using ttl_conversion [of "(txtRecord [] ''a'' ''x'')\<lparr>TTL := 1500000000\<rparr>"
      "''example.com''" "''example.com''" _ "''example.com''"]
    ttl_conversion [of "txtRecord [] ''a'' ''x''" "''example.com''" "''example.com''" _ "''example.com''"]
  by (simp add: txtRecord_def signed_divide_int_def signed_modulo_int_def Second_def)

subsection \<open>The round trip\<close>

lemma HasSuffix_dot: "HasSuffix s ''.'' \<longleftrightarrow> s \<noteq> [] \<and> last s = CHR ''.''"
proof (cases s rule: rev_cases)
  case Nil
  then show ?thesis by (simp add: HasSuffix_def)
next
  case (snoc t c)
  then show ?thesis by (auto simp: HasSuffix_def)
qed

lemma TrimSuffix_no_dot: "noTrailingDot s \<Longrightarrow> TrimSuffix s ''.'' = s"
  by (simp add: TrimSuffix_def HasSuffix_dot noTrailingDot_def)

text \<open>
  On names without a trailing dot \<^const>\<open>RelativeName\<close> is the plain stripping of the zone
  and of one dot.
\<close>

lemma RelativeName_plain:
  "noTrailingDot fqdn \<Longrightarrow> noTrailingDot zone \<Longrightarrow>
     RelativeName fqdn zone = TrimSuffix (TrimSuffix fqdn zone) ''.''"
  by (simp add: RelativeName_def TrimSuffix_no_dot)

lemma TrimSuffix_append: "TrimSuffix (a @ b) b = a"
  by (simp add: TrimSuffix_def HasSuffix_def)

lemma RelativeName_under:
  assumes "noTrailingDot d"
  shows "RelativeName (s @ ''.'' @ d) d = s"
proof -
  have "noTrailingDot (s @ ''.'' @ d)"
    using assms by (simp add: noTrailingDot_def)
  then have 1: "TrimSuffix (s @ ''.'' @ d) ''.'' = s @ ''.'' @ d"
    by (rule TrimSuffix_no_dot)
  have 2: "TrimSuffix d ''.'' = d"
    using assms by (rule TrimSuffix_no_dot)
  have 3: "TrimSuffix (s @ ''.'' @ d) d = s @ ''.''"
    using TrimSuffix_append [of "s @ ''.''" d] by simp
  have 4: "TrimSuffix (s @ ''.'') ''.'' = s"
    by (rule TrimSuffix_append)
  show ?thesis
    by (simp only: RelativeName_def 1 2 3 4)
qed

lemma provider_hostname_rebuilt:
  assumes "noTrailingDot own" and "atOrUnder F own"
  shows "(if RelativeName F own = [] then own else RelativeName F own @ ''.'' @ own) = F"
proof (cases "F = own")
  case True
  then show ?thesis by (simp add: RelativeName_self)
next
  case False
  define s where "s = take (length F - length own - 1) F"
  from False assms(2) have s: "s \<noteq> []" "F = s @ ''.'' @ own"
    unfolding atOrUnder_def Let_def s_def by blast+
  then have "RelativeName F own = s"
    using RelativeName_under [OF assms(1), of s] by simp
  with s show ?thesis by simp
qed

lemma AbsoluteName_clean:
  assumes "noTrailingDot name" and "name \<noteq> ''@''" and "zone \<noteq> []"
  shows "AbsoluteName name zone = name @ ''.'' @ zone"
  using assms by (simp add: AbsoluteName_def HasSuffix_dot noTrailingDot_def)

lemma echo_fields:
  "dns_Type (provider_echo own p) = dns_Type p" "Host (provider_echo own p) = Host p"
  "Ipv4Address (provider_echo own p) = Ipv4Address p" "Ipv6Address (provider_echo own p) = Ipv6Address p"
  "TextData (provider_echo own p) = TextData p" "dns_TTL (provider_echo own p) = dns_TTL p"
  "Hostname (provider_echo own p) = (if NodeName p = [] then own else NodeName p @ ''.'' @ own)"
  by (simp_all add: provider_echo_def)

lemma echo_Hostname:
  assumes "noTrailingDot own" and "atOrUnder F own" and "NodeName p = RelativeName F own"
  shows "Hostname (provider_echo own p) = F"
  using provider_hostname_rebuilt [OF assms(1,2)] assms(3)
  by (simp only: echo_fields)

lemma toProvider_values:
  "Ipv4Address (fst (libdnsRecordToDnsRecord r domain own)) = (if Type r = ''A'' then Value r else [])"
  "Ipv6Address (fst (libdnsRecordToDnsRecord r domain own)) = (if Type r = ''AAAA'' then Value r else [])"
  "TextData (fst (libdnsRecordToDnsRecord r domain own)) =
     (if Type r \<in> {''SPF'', ''TXT''} then Value r else [])"
  by (simp_all add: libdnsRecordToDnsRecord_def Let_def zeroDNSRecord_def)

text \<open>
  C2 (as stated, refuted): the claim is for every record of a supported type and every pair
  of domains. The name \<^verbatim>\<open>sub\<close> in the zone \<^verbatim>\<open>example.com\<close> does not lie below the owning
  domain \<^verbatim>\<open>my.example.com\<close>: its node name is the whole \<^verbatim>\<open>sub.example.com\<close>, and it
  comes back as \<^verbatim>\<open>sub.example.com.my\<close>. A TTL of one and a half seconds comes back as one
  second.
\<close>

theorem translation_round_trip_counterexample:
  "Name (dnsRecordToLibdnsRecord (provider_echo ''my.example.com''
       (fst (libdnsRecordToDnsRecord (aRecord [] ''sub'' ''1.2.3.4'' 120000000000)
          ''example.com'' ''my.example.com''))) ''example.com'') = ''sub.example.com.my'' \<and>
   TTL (dnsRecordToLibdnsRecord (provider_echo ''example.com''
       (fst (libdnsRecordToDnsRecord (aRecord [] ''sub'' ''1.2.3.4'' 1500000000)
          ''example.com'' ''example.com''))) ''example.com'') = 1000000000"
proof
  show "Name (dnsRecordToLibdnsRecord (provider_echo ''my.example.com''
       (fst (libdnsRecordToDnsRecord (aRecord [] ''sub'' ''1.2.3.4'' 120000000000)
          ''example.com'' ''my.example.com''))) ''example.com'') = ''sub.example.com.my''"
    by (simp add: toNormalized_Name echo_fields toProvider_Type toProvider_NodeName aRecord_def
        AbsoluteName_def RelativeName_def TrimSuffix_def HasSuffix_def)
  have "truncToInt (Seconds 1500000000) = word_of_int (sint (1500000000 :: 64 word) sdiv Second)"
    by (rule truncation_below_2_24) (simp add: Second_def)
  then have "truncToInt (Seconds 1500000000) = 1"
    by (simp add: signed_divide_int_def Second_def)
  then show "TTL (dnsRecordToLibdnsRecord (provider_echo ''example.com''
       (fst (libdnsRecordToDnsRecord (aRecord [] ''sub'' ''1.2.3.4'' 1500000000)
          ''example.com'' ''example.com''))) ''example.com'') = 1000000000"
    by (simp add: toNormalized_TTL echo_fields toProvider_TTL aRecord_def Second_def)
qed

text \<open>
  The part before the dot and the owning domain has to be non-empty: the name \<^verbatim>\<open>.my\<close> in
  the zone \<^verbatim>\<open>example.com\<close> has the absolute name \<^verbatim>\<open>.my.example.com\<close>, its node name
  under \<^verbatim>\<open>my.example.com\<close> is empty, and it comes back as \<^verbatim>\<open>my\<close>.
\<close>

lemma empty_label_not_reproduced:
  "NodeName (fst (libdnsRecordToDnsRecord (aRecord [] ''.my'' ''1.2.3.4'' 120000000000)
       ''example.com'' ''my.example.com'')) = [] \<and>
   Name (dnsRecordToLibdnsRecord (provider_echo ''my.example.com''
       (fst (libdnsRecordToDnsRecord (aRecord [] ''.my'' ''1.2.3.4'' 120000000000)
          ''example.com'' ''my.example.com''))) ''example.com'') = ''my''"
  by (simp add: toNormalized_Name echo_fields toProvider_Type toProvider_NodeName aRecord_def
      AbsoluteName_def RelativeName_def TrimSuffix_def HasSuffix_def)

text \<open>
  C2 (amended): for every normalized record of a supported type whose TTL is a whole number
  of seconds, and every zone and owning domain that are non-empty and have no trailing
  dot, such that the rebased name lies at or below the owning domain (for a record other
  than PTR: the name is non-empty without trailing dot, \<^verbatim>\<open>"@"\<close> for the apex, and its
  absolute name in the zone is the owning domain or a non-empty string followed by a dot
  and the owning domain; for a PTR record: the value is the owning domain or a non-empty
  string followed by a dot and the owning domain), translating the record to the provider
  gives no error, and letting the provider echo the result with the hostname rebuilt from
  node name and owning domain and translating it back reproduces name, type, value and
  TTL.
\<close>

theorem translation_round_trip:
  assumes known: "Type r \<in> set knownTypes"
    and zone: "noTrailingDot zone" and own: "noTrailingDot own"
    and whole: "sint (TTL r) smod Second = 0"
    and name: "Type r \<noteq> ''PTR'' \<longrightarrow> noTrailingDot (Name r) \<and>
                 atOrUnder (AbsoluteName (if Name r = ''@'' then [] else Name r) zone) own"
    and ptr: "Type r = ''PTR'' \<longrightarrow> atOrUnder (Value r) own"
  shows "snd (libdnsRecordToDnsRecord r zone own) = None \<and>
         Name (dnsRecordToLibdnsRecord (provider_echo own (fst (libdnsRecordToDnsRecord r zone own))) zone) = Name r \<and>
         Type (dnsRecordToLibdnsRecord (provider_echo own (fst (libdnsRecordToDnsRecord r zone own))) zone) = Type r \<and>
         Value (dnsRecordToLibdnsRecord (provider_echo own (fst (libdnsRecordToDnsRecord r zone own))) zone) = Value r \<and>
         TTL (dnsRecordToLibdnsRecord (provider_echo own (fst (libdnsRecordToDnsRecord r zone own))) zone) = TTL r"
proof (intro conjI)
  let ?p = "fst (libdnsRecordToDnsRecord r zone own)"
  let ?e = "provider_echo own ?p"
  show "snd (libdnsRecordToDnsRecord r zone own) = None"
    using known by (simp add: toProvider_error)
  show "Type (dnsRecordToLibdnsRecord ?e zone) = Type r"
    by (simp add: toNormalized_Type echo_fields toProvider_Type)
  show "TTL (dnsRecordToLibdnsRecord ?e zone) = TTL r"
    using whole by (simp add: toNormalized_TTL echo_fields toProvider_TTL TTL_roundtrip_iff)
  show "Name (dnsRecordToLibdnsRecord ?e zone) = Name r"
  proof (cases "Type r = ''PTR''")
    case True
    then show ?thesis
      by (simp add: toNormalized_Name echo_fields toProvider_Type toProvider_Host)
  next
    case False
    let ?F = "AbsoluteName (if Name r = ''@'' then [] else Name r) zone"
    from False name have n: "noTrailingDot (Name r)" and under: "atOrUnder ?F own" by simp_all
    have "NodeName ?p = RelativeName ?F own"
      using False by (simp add: toProvider_NodeName)
    with own under have host: "Hostname ?e = ?F"
      by (rule echo_Hostname)
    have rel: "(if RelativeName ?F zone = [] then ''@'' else RelativeName ?F zone) = Name r"
    proof (cases "Name r = ''@''")
      case True
      then show ?thesis by (simp add: AbsoluteName_Nil RelativeName_self)
    next
      case at: False
      have "?F = Name r @ ''.'' @ zone"
        using at n zone by (simp add: AbsoluteName_clean noTrailingDot_def)
      then have "RelativeName ?F zone = Name r"
        using RelativeName_under [OF zone, of "Name r"] by simp
      with n show ?thesis by (simp add: noTrailingDot_def)
    qed
    have ty: "dns_Type ?e \<noteq> ''PTR''"
      using False by (simp add: echo_fields(1) toProvider_Type)
    have "Name (dnsRecordToLibdnsRecord ?e zone) =
        (if RelativeName (Hostname ?e) zone = [] then ''@'' else RelativeName (Hostname ?e) zone)"
      using ty by (simp only: toNormalized_Name if_False)
    also have "\<dots> = (if RelativeName ?F zone = [] then ''@'' else RelativeName ?F zone)"
      by (simp only: host)
    also have "\<dots> = Name r" by (rule rel)
    finally show ?thesis .
  qed
  show "Value (dnsRecordToLibdnsRecord ?e zone) = Value r"
  proof (cases "Type r = ''PTR''")
    case True
    with ptr have under: "atOrUnder (Value r) own" by simp
    have "NodeName ?p = RelativeName (Value r) own"
      using True by (simp add: toProvider_NodeName)
    with own under have "Hostname ?e = Value r"
      by (rule echo_Hostname)
    with True show ?thesis
      by (simp add: toNormalized_Value echo_fields(1) toProvider_Type)
  next
    case False
    with known show ?thesis
      by (auto simp: toNormalized_Value echo_fields toProvider_Type toProvider_Host
          toProvider_values knownTypes_def)
  qed
qed

text \<open>
  The A record of the repository's tests: \<^verbatim>\<open>abc.my\<close> in the zone \<^verbatim>\<open>dynu.com\<close> under the
  owning domain \<^verbatim>\<open>my.dynu.com\<close>.
\<close>

theorem translation_round_trip_witness:
  "snd (libdnsRecordToDnsRecord (aRecord ''123'' ''abc.my'' ''1.2.3.4'' 120000000000)
       ''dynu.com'' ''my.dynu.com'') = None \<and>
   Name (dnsRecordToLibdnsRecord (provider_echo ''my.dynu.com''
       (fst (libdnsRecordToDnsRecord (aRecord ''123'' ''abc.my'' ''1.2.3.4'' 120000000000)
          ''dynu.com'' ''my.dynu.com''))) ''dynu.com'') = ''abc.my'' \<and>
   Type (dnsRecordToLibdnsRecord (provider_echo ''my.dynu.com''
       (fst (libdnsRecordToDnsRecord (aRecord ''123'' ''abc.my'' ''1.2.3.4'' 120000000000)
          ''dynu.com'' ''my.dynu.com''))) ''dynu.com'') = ''A'' \<and>
   Value (dnsRecordToLibdnsRecord (provider_echo ''my.dynu.com''
       (fst (libdnsRecordToDnsRecord (aRecord ''123'' ''abc.my'' ''1.2.3.4'' 120000000000)
          ''dynu.com'' ''my.dynu.com''))) ''dynu.com'') = ''1.2.3.4'' \<and>
   TTL (dnsRecordToLibdnsRecord (provider_echo ''my.dynu.com''
       (fst (libdnsRecordToDnsRecord (aRecord ''123'' ''abc.my'' ''1.2.3.4'' 120000000000)
          ''dynu.com'' ''my.dynu.com''))) ''dynu.com'') = 120000000000"
proof -
  let ?r = "aRecord ''123'' ''abc.my'' ''1.2.3.4'' 120000000000"
  have known: "Type ?r \<in> set knownTypes"
    by (simp add: aRecord_def knownTypes_def)
  have zone: "noTrailingDot ''dynu.com''" and own: "noTrailingDot ''my.dynu.com''"
    by (simp_all add: noTrailingDot_def)
  have whole: "sint (TTL ?r) smod Second = 0"
    by (simp add: aRecord_def signed_modulo_int_def Second_def)
  have name: "Type ?r \<noteq> ''PTR'' \<longrightarrow> noTrailingDot (Name ?r) \<and>
      atOrUnder (AbsoluteName (if Name ?r = ''@'' then [] else Name ?r) ''dynu.com'') ''my.dynu.com''"
    by (simp add: aRecord_def noTrailingDot_def atOrUnder_def AbsoluteName_def HasSuffix_def)
  have ptr: "Type ?r = ''PTR'' \<longrightarrow> atOrUnder (Value ?r) ''my.dynu.com''"
    by (simp add: aRecord_def)
  show ?thesis
    using translation_round_trip [OF known zone own whole name ptr]
    by (simp add: aRecord_def)
qed

end
